theory Spec2Isabelle
  imports Complex_Main "HOL-Library.Multiset"
begin

section \<open>Python values used by \<open>estimator.py\<close>\<close>

text \<open>
  An exception raised inside a collaborator (the walker, \<open>eval\<close> of the rendered code,
  the candidate's \<open>fit\<close> and \<open>predict\<close>, the scoring function, \<open>sklearn.utils.shuffle\<close>).
  The clause \<open>except Exception\<close> of \<open>Classifier.fit\<close> matches the first kind only;
  \<open>KeyboardInterrupt\<close>, \<open>SystemExit\<close> and the like are of the second kind.
\<close>

datatype collaborator_error = Exception string | BaseException string

fun is_Exception :: "collaborator_error \<Rightarrow> bool" where
  "is_Exception (Exception _) = True"
| "is_Exception (BaseException _) = False"

text \<open>
  What a call of \<open>fit\<close>, \<open>predict\<close> or \<open>predict_proba\<close> can raise: the failed
  \<open>assert\<close> of \<open>fit\<close>, the attribute lookup on \<open>None\<close> in \<open>predict\<close>, an index
  out of range, \<open>np.argmax\<close> of an empty sequence or \<open>int\<close> of a NaN (both
  \<open>ValueError\<close>), \<open>int\<close> of an infinity, or an exception that comes out of a
  collaborator.
\<close>

datatype error =
    AssertionError
  | AttributeError
  | IndexError
  | ValueError
  | OverflowError
  | Propagated collaborator_error

text \<open>
  A Python float: a finite value, one of the two infinities, or NaN. Every finite
  double is a rational number; which rationals are doubles, and how a product is
  rounded to one, is not fixed here (see \<open>float_mul\<close> below). \<open>valid_ratio\<close> and
  the scores are floats, as the docstring of the class has them; a score that is a
  Python integer too large for a double is outside the model.
\<close>

datatype pyfloat = Finite rat | PosInf | NegInf | NaN

fun is_nan :: "pyfloat \<Rightarrow> bool" where
  "is_nan NaN = True"
| "is_nan (Finite q) = False"
| "is_nan PosInf = False"
| "is_nan NegInf = False"

text \<open>The comparisons \<open>a < b\<close> and \<open>a <= b\<close> of floats: false as soon as one side is NaN.\<close>

fun float_less :: "pyfloat \<Rightarrow> pyfloat \<Rightarrow> bool" where
  "float_less NaN b = False"
| "float_less a NaN = False"
| "float_less (Finite p) (Finite q) = (p < q)"
| "float_less a PosInf = (a \<noteq> PosInf)"
| "float_less PosInf b = False"
| "float_less NegInf b = (b \<noteq> NegInf)"
| "float_less a NegInf = False"

fun float_le :: "pyfloat \<Rightarrow> pyfloat \<Rightarrow> bool" where
  "float_le NaN b = False"
| "float_le a NaN = False"
| "float_le (Finite p) (Finite q) = (p \<le> q)"
| "float_le a PosInf = True"
| "float_le PosInf b = False"
| "float_le NegInf b = True"
| "float_le a NegInf = False"

text \<open>
  \<open>int(q)\<close> for a float \<open>q\<close>: the integer part of a finite value, rounding toward
  zero; \<open>OverflowError\<close> on an infinity and \<open>ValueError\<close> on NaN.
\<close>

fun int_of_float :: "pyfloat \<Rightarrow> error + int" where
  "int_of_float (Finite q) = Inr (if 0 \<le> q then \<lfloor>q\<rfloor> else \<lceil>q\<rceil>)"
| "int_of_float PosInf = Inl OverflowError"
| "int_of_float NegInf = Inl OverflowError"
| "int_of_float NaN = Inl ValueError"

text \<open>
  Slices \<open>xs[0:k]\<close> and \<open>xs[k:]\<close> for a Python integer \<open>k\<close>: a negative bound counts
  from the end, and every bound is clipped to the range of the sequence.
\<close>

definition slice_bound :: "nat \<Rightarrow> int \<Rightarrow> nat" where
  "slice_bound n k = (if k < 0 then nat (max 0 (int n + k)) else min n (nat k))"

definition slice_upto :: "'a list \<Rightarrow> int \<Rightarrow> 'a list" where
  "slice_upto xs k = take (slice_bound (length xs) k) xs"

definition slice_from :: "'a list \<Rightarrow> int \<Rightarrow> 'a list" where
  "slice_from xs k = drop (slice_bound (length xs) k) xs"

text \<open>\<open>xs[i]\<close> for an index that is not negative.\<close>

definition getitem :: "'a list \<Rightarrow> nat \<Rightarrow> error + 'a" where
  "getitem xs i = (if i < length xs then Inr (xs ! i) else Inl IndexError)"

text \<open>
  \<open>np.argmax\<close> on a sequence of floats: one scan from the left that moves to an entry
  when \<open>entry <= best\<close> is false, and stops at the first NaN, which it returns. So
  the result is the index of the first NaN when there is one, and of the first
  largest value otherwise. The empty sequence is a \<open>ValueError\<close>.
\<close>

fun argmax_from :: "pyfloat list \<Rightarrow> nat \<Rightarrow> nat \<Rightarrow> pyfloat \<Rightarrow> nat" where
  "argmax_from [] i best_i best = best_i"
| "argmax_from (x # xs) i best_i best =
     (if \<not> float_le x best then
        if is_nan x then i else argmax_from xs (Suc i) i x
      else argmax_from xs (Suc i) best_i best)"

definition argmax :: "pyfloat list \<Rightarrow> error + nat" where
  "argmax xs =
     (case xs of
        [] \<Rightarrow> Inl ValueError
      | x # rest \<Rightarrow> Inr (if is_nan x then 0 else argmax_from rest 1 0 x))"

section \<open>The collaborators\<close>

text \<open>
  The functions \<open>Classifier\<close> calls and does not define. \<open>'w\<close> is the state of the
  walker, \<open>'t\<close> its terminals, \<open>'x\<close> a row of features, \<open>'y\<close> a label, \<open>'m\<close> a
  constructed pipeline, \<open>'q\<close> what \<open>predict_proba\<close> returns.

  \<open>'g\<close> is the ambient state: whatever the constructed pipelines and the scoring
  function read and write besides their arguments, the global random generators
  above all. \<open>Classifier\<close> passes \<open>random_state\<close> to the shuffle only, so the calls
  that construct, train, predict and score take the ambient state and return it.
  \<^item> \<open>shuffle seed X y\<close> is \<open>sklearn.utils.shuffle(X, y, random_state=seed)\<close>;
  \<^item> \<open>float_mul n r\<close> is the float product \<open>n * r\<close> of an integer and a float, with
    its rounding and its overflow, whatever they are;
  \<^item> \<open>walk\<close> is \<open>wl.walk()\<close>, which advances the walker in place;
  \<^item> \<open>terminals\<close> reads \<open>wl.terminals\<close> and \<open>as_str\<close> renders them;
  \<^item> \<open>eval_code\<close> is Python's \<open>eval\<close> on the rendered code;
  \<^item> \<open>clf_fit\<close> is \<open>clf.fit(X_train, y_train)\<close>, returning the trained pipeline;
  \<^item> \<open>clf_predict\<close> and \<open>clf_predict_proba\<close> are the pipeline's methods.
\<close>

record ('w, 't, 'x, 'y, 'm, 'q, 'g) env =
  shuffle :: "int \<Rightarrow> 'x list \<Rightarrow> 'y list \<Rightarrow> collaborator_error + ('x list \<times> 'y list)"
  float_mul :: "nat \<Rightarrow> pyfloat \<Rightarrow> pyfloat"
  walk :: "'w \<Rightarrow> 'w"
  terminals :: "'w \<Rightarrow> 't"
  as_str :: "'t \<Rightarrow> string"
  eval_code :: "'g \<Rightarrow> string \<Rightarrow> (collaborator_error + 'm) \<times> 'g"
  clf_fit :: "'g \<Rightarrow> 'm \<Rightarrow> 'x list \<Rightarrow> 'y list \<Rightarrow> (collaborator_error + 'm) \<times> 'g"
  clf_predict :: "'g \<Rightarrow> 'm \<Rightarrow> 'x list \<Rightarrow> (collaborator_error + 'y list) \<times> 'g"
  clf_predict_proba :: "'g \<Rightarrow> 'm \<Rightarrow> 'x list \<Rightarrow> (collaborator_error + 'q) \<times> 'g"

section \<open>The class \<open>Classifier\<close>\<close>

text \<open>
  The attributes of an instance. Isabelle reserves the names that end in an underscore,
  so the attributes \<^verbatim>\<open>estimators_\<close>, \<^verbatim>\<open>scores_\<close>, \<^verbatim>\<open>codes_\<close>, \<^verbatim>\<open>best_score_\<close>,
  \<^verbatim>\<open>best_estimator_\<close> and \<^verbatim>\<open>best_estimator_code_\<close> are the fields of the same name
  without it. \<open>valid_ratio\<close> and the scores are floats, as the docstring has them.
\<close>

record ('w, 'y, 'm, 'g) classifier =
  nb_iter :: int
  score :: "'g \<Rightarrow> 'y list \<Rightarrow> 'y list \<Rightarrow> (collaborator_error + pyfloat) \<times> 'g"
  walker :: 'w
  valid_ratio :: pyfloat
  random_state :: int
  estimators :: "'m list"
  scores :: "pyfloat list"
  codes :: "string list"
  best_score :: "pyfloat option"
  best_estimator :: "'m option"
  best_estimator_code :: "string option"
  verbose :: bool

definition init ::
  "int \<Rightarrow> ('g \<Rightarrow> 'y list \<Rightarrow> 'y list \<Rightarrow> (collaborator_error + pyfloat) \<times> 'g) \<Rightarrow> 'w \<Rightarrow> pyfloat
   \<Rightarrow> int \<Rightarrow> bool \<Rightarrow> ('w, 'y, 'm, 'g) classifier" where
  "init nb_iter' score' walker' valid_ratio' random_state' verbose' =
     \<lparr> nb_iter = nb_iter', score = score', walker = walker', valid_ratio = valid_ratio',
       random_state = random_state', estimators = [], scores = [], codes = [],
       best_score = None, best_estimator = None, best_estimator_code = None,
       verbose = verbose' \<rparr>"

text \<open>The lines \<open>fit\<close> prints when \<open>verbose\<close> is set, by their format string.\<close>

datatype line =
    Exception_on_iteration nat string
  | Str_ex collaborator_error
  | Iteration nat
  | Trained string
  | Score pyfloat
  | Best_score pyfloat
  | Code string

text \<open>
  What a call of \<open>fit\<close> leaves behind: the instance as mutated so far, the ambient
  state, the lines printed, and the exception that ended the call, if one did.
\<close>

record ('w, 'y, 'm, 'g) outcome =
  self :: "('w, 'y, 'm, 'g) classifier"
  ambient :: 'g
  printed :: "line list"
  raised :: "error option"

text \<open>
  Lines 86 to 101: the training and validation data. The validation parts stay
  optional, as the \<open>assert\<close> that follows reads them. The shuffle is seeded and takes
  nothing from the ambient state.
\<close>

definition resolve ::
  "('w, 't, 'x, 'y, 'm, 'q, 'g) env \<Rightarrow> ('w, 'y, 'm, 'g) classifier \<Rightarrow> 'x list \<Rightarrow> 'y list
   \<Rightarrow> 'x list option \<Rightarrow> 'y list option
   \<Rightarrow> error + ('x list \<times> 'y list \<times> 'x list option \<times> 'y list option)" where
  "resolve E c X y X_valid y_valid =
     (if X_valid = None \<and> y_valid = None then
        if float_less (Finite 0) (valid_ratio c) then
          (case shuffle E (random_state c) X y of
             Inl ex \<Rightarrow> Inl (Propagated ex)
           | Inr (X, y) \<Rightarrow>
               (case int_of_float (float_mul E (length X) (valid_ratio c)) of
                  Inl ex \<Rightarrow> Inl ex
                | Inr k \<Rightarrow>
                    let nb_train = int (length X) - k
                    in Inr (slice_upto X nb_train, slice_upto y nb_train,
                            Some (slice_from X nb_train), Some (slice_from y nb_train))))
        else Inr (X, y, Some X, Some y)
      else Inr (X, y, X_valid, y_valid))"

text \<open>Lines 107 to 124: the body of the loop, for the iteration of index \<open>i\<close>.\<close>

definition iteration ::
  "('w, 't, 'x, 'y, 'm, 'q, 'g) env \<Rightarrow> 'x list \<Rightarrow> 'y list \<Rightarrow> 'x list \<Rightarrow> 'y list \<Rightarrow> nat
   \<Rightarrow> ('w, 'y, 'm, 'g) outcome \<Rightarrow> ('w, 'y, 'm, 'g) outcome" where
  "iteration E X_train y_train X_valid y_valid i st =
     (let c = (self st)\<lparr>walker := walk E (walker (self st))\<rparr>;
          code = as_str E (terminals E (walker c))
      in case eval_code E (ambient st) code of
           (Inl ex, g) \<Rightarrow> st\<lparr>self := c, ambient := g, raised := Some (Propagated ex)\<rparr>
         | (Inr clf, g) \<Rightarrow>
             (case clf_fit E g clf X_train y_train of
                (Inl ex, g) \<Rightarrow>
                  if is_Exception ex then
                    st\<lparr>self := c, ambient := g,
                       printed := printed st @
                         (if verbose c then [Exception_on_iteration i code, Str_ex ex] else [])\<rparr>
                  else st\<lparr>self := c, ambient := g, raised := Some (Propagated ex)\<rparr>
              | (Inr clf, g) \<Rightarrow>
                  (case clf_predict E g clf X_valid of
                     (Inl ex, g) \<Rightarrow> st\<lparr>self := c, ambient := g, raised := Some (Propagated ex)\<rparr>
                   | (Inr pred, g) \<Rightarrow>
                       (case score c g y_valid pred of
                          (Inl ex, g) \<Rightarrow>
                            st\<lparr>self := c, ambient := g, raised := Some (Propagated ex)\<rparr>
                        | (Inr sc, g) \<Rightarrow>
                            st\<lparr>self := c\<lparr>codes := codes c @ [code],
                                          estimators := estimators c @ [clf],
                                          scores := scores c @ [sc]\<rparr>,
                               ambient := g,
                               printed := printed st @
                                 (if verbose c then [Iteration i, Trained code, Score sc]
                                  else [])\<rparr>))))"

text \<open>
  Line 106: the loop over \<open>range(self.nb_iter)\<close>. An exception that leaves an
  iteration ends the loop; \<open>continue\<close> and the normal end of the body go on.
\<close>

fun search_loop ::
  "('w, 't, 'x, 'y, 'm, 'q, 'g) env \<Rightarrow> 'x list \<Rightarrow> 'y list \<Rightarrow> 'x list \<Rightarrow> 'y list \<Rightarrow> nat list
   \<Rightarrow> ('w, 'y, 'm, 'g) outcome \<Rightarrow> ('w, 'y, 'm, 'g) outcome" where
  "search_loop E X_train y_train X_valid y_valid [] st = st"
| "search_loop E X_train y_train X_valid y_valid (i # rest) st =
     (let st' = iteration E X_train y_train X_valid y_valid i st
      in if raised st' \<noteq> None then st'
         else search_loop E X_train y_train X_valid y_valid rest st')"

text \<open>Lines 126 to 133: the selection of the best candidate.\<close>

definition select :: "('w, 'y, 'm, 'g) outcome \<Rightarrow> ('w, 'y, 'm, 'g) outcome" where
  "select st =
     (let c = self st in
      if length (scores c) \<noteq> 0 then
        (case argmax (scores c) of
           Inl ex \<Rightarrow> st\<lparr>raised := Some ex\<rparr>
         | Inr idx \<Rightarrow>
             (case getitem (scores c) idx of
                Inl ex \<Rightarrow> st\<lparr>raised := Some ex\<rparr>
              | Inr best \<Rightarrow>
                  let c = c\<lparr>best_score := Some best\<rparr> in
                  (case getitem (estimators c) idx of
                     Inl ex \<Rightarrow> st\<lparr>self := c, raised := Some ex\<rparr>
                   | Inr clf \<Rightarrow>
                       let c = c\<lparr>best_estimator := Some clf\<rparr> in
                       (case getitem (codes c) idx of
                          Inl ex \<Rightarrow> st\<lparr>self := c, raised := Some ex\<rparr>
                        | Inr code \<Rightarrow>
                            st\<lparr>self := c\<lparr>best_estimator_code := Some code\<rparr>,
                               printed := printed st @
                                 (if verbose c then [Best_score best, Code code] else [])\<rparr>))))
      else st)"

text \<open>
  Lines 105 to 134: the loop from the instance as \<open>fit\<close> found it, then the
  selection, which an exception out of the loop skips.
\<close>

definition search_and_select ::
  "('w, 't, 'x, 'y, 'm, 'q, 'g) env \<Rightarrow> 'g \<Rightarrow> ('w, 'y, 'm, 'g) classifier \<Rightarrow> 'x list \<Rightarrow> 'y list
   \<Rightarrow> 'x list \<Rightarrow> 'y list \<Rightarrow> ('w, 'y, 'm, 'g) outcome" where
  "search_and_select E g c X_train y_train X_valid y_valid =
     (let st = search_loop E X_train y_train X_valid y_valid [0..<nat (nb_iter c)]
                 \<lparr>self = c, ambient = g, printed = [], raised = None\<rparr>
      in if raised st \<noteq> None then st else select st)"

text \<open>
  \<open>Classifier.fit\<close>, lines 85 to 134, with the \<open>assert\<close> of line 103, called in the
  ambient state \<open>g\<close>.
\<close>

definition fit ::
  "('w, 't, 'x, 'y, 'm, 'q, 'g) env \<Rightarrow> 'g \<Rightarrow> ('w, 'y, 'm, 'g) classifier \<Rightarrow> 'x list \<Rightarrow> 'y list
   \<Rightarrow> 'x list option \<Rightarrow> 'y list option \<Rightarrow> ('w, 'y, 'm, 'g) outcome" where
  "fit E g c X y X_valid y_valid =
     (case resolve E c X y X_valid y_valid of
        Inl ex \<Rightarrow> \<lparr>self = c, ambient = g, printed = [], raised = Some ex\<rparr>
      | Inr (X_train, y_train, X_valid, y_valid) \<Rightarrow>
          (case X_valid of
             None \<Rightarrow> \<lparr>self = c, ambient = g, printed = [], raised = Some AssertionError\<rparr>
           | Some X_valid \<Rightarrow>
               (case y_valid of
                  None \<Rightarrow> \<lparr>self = c, ambient = g, printed = [], raised = Some AssertionError\<rparr>
                | Some y_valid \<Rightarrow> search_and_select E g c X_train y_train X_valid y_valid)))"

text \<open>
  \<open>Classifier.predict\<close> and \<open>Classifier.predict_proba\<close>: the attribute lookup on
  \<^verbatim>\<open>self.best_estimator_\<close> fails when it is \<open>None\<close>.
\<close>

definition predict ::
  "('w, 't, 'x, 'y, 'm, 'q, 'g) env \<Rightarrow> 'g \<Rightarrow> ('w, 'y, 'm, 'g) classifier \<Rightarrow> 'x list
   \<Rightarrow> (error + 'y list) \<times> 'g" where
  "predict E g c X =
     (case best_estimator c of
        None \<Rightarrow> (Inl AttributeError, g)
      | Some clf \<Rightarrow>
          (case clf_predict E g clf X of
             (Inl ex, g) \<Rightarrow> (Inl (Propagated ex), g)
           | (Inr r, g) \<Rightarrow> (Inr r, g)))"

definition predict_proba ::
  "('w, 't, 'x, 'y, 'm, 'q, 'g) env \<Rightarrow> 'g \<Rightarrow> ('w, 'y, 'm, 'g) classifier \<Rightarrow> 'x list
   \<Rightarrow> (error + 'q) \<times> 'g" where
  "predict_proba E g c X =
     (case best_estimator c of
        None \<Rightarrow> (Inl AttributeError, g)
      | Some clf \<Rightarrow>
          (case clf_predict_proba E g clf X of
             (Inl ex, g) \<Rightarrow> (Inl (Propagated ex), g)
           | (Inr r, g) \<Rightarrow> (Inr r, g)))"

text \<open>
  A caller that makes one call of \<open>fit\<close> after another on the same instance, going on
  after a call that raised: the instance and the ambient state after the last call.
\<close>

fun fits ::
  "('w, 't, 'x, 'y, 'm, 'q, 'g) env \<Rightarrow> 'g \<Rightarrow> ('w, 'y, 'm, 'g) classifier
   \<Rightarrow> ('x list \<times> 'y list \<times> 'x list option \<times> 'y list option) list
   \<Rightarrow> ('w, 'y, 'm, 'g) classifier \<times> 'g" where
  "fits E g c [] = (c, g)"
| "fits E g c ((X, y, X_valid, y_valid) # calls) =
     fits E (ambient (fit E g c X y X_valid y_valid)) (self (fit E g c X y X_valid y_valid)) calls"

text \<open>
  The hypothesis that every one of the next \<open>n\<close> iterations, from the walker state
  \<open>w\<close> and the ambient state \<open>g\<close>, constructs its pipeline and fails in training with
  an exception that \<open>except Exception\<close> matches.
\<close>

fun every_training_fails ::
  "('w, 't, 'x, 'y, 'm, 'q, 'g) env \<Rightarrow> 'x list \<Rightarrow> 'y list \<Rightarrow> nat \<Rightarrow> 'w \<Rightarrow> 'g \<Rightarrow> bool" where
  "every_training_fails E X_train y_train 0 w g = True"
| "every_training_fails E X_train y_train (Suc n) w g =
     (case eval_code E g (as_str E (terminals E (walk E w))) of
        (Inl ex, g1) \<Rightarrow> False
      | (Inr clf, g1) \<Rightarrow>
          (case clf_fit E g1 clf X_train y_train of
             (Inl ex, g2) \<Rightarrow>
               is_Exception ex \<and> every_training_fails E X_train y_train n (walk E w) g2
           | (Inr clf', g2) \<Rightarrow> False))"

section \<open>Concrete collaborators\<close>

text \<open>
  Used to run the model on explicit inputs. The walker is a counter and renders its
  \<open>n\<close>-th derivation as \<open>n\<close> letters; the code \<open>aa\<close> cannot be constructed and the
  pipeline \<open>aaa\<close> cannot be trained; a pipeline predicts the feature modulo the length
  of its code; the shuffle reverses; the float product is the exact one on finite
  values, as it is in double precision for the small binary fractions used below.
  None of these touches the ambient state, a counter.
\<close>

fun exact_mul :: "nat \<Rightarrow> pyfloat \<Rightarrow> pyfloat" where
  "exact_mul n (Finite q) = Finite (of_nat n * q)"
| "exact_mul n NaN = NaN"
| "exact_mul n PosInf = (if n = 0 then NaN else PosInf)"
| "exact_mul n NegInf = (if n = 0 then NaN else NegInf)"

definition demo_env :: "(nat, nat, int, int, string, unit, nat) env" where
  "demo_env =
     \<lparr> shuffle = (\<lambda>seed X y. if length X = length y then Inr (rev X, rev y)
                               else Inl (Exception ''ValueError'')),
       float_mul = exact_mul,
       walk = Suc,
       terminals = (\<lambda>w. w),
       as_str = (\<lambda>t. replicate t CHR ''a''),
       eval_code = (\<lambda>g code. (if code = ''aa'' then Inl (Exception ''NameError'') else Inr code, g)),
       clf_fit = (\<lambda>g m X y. (if m = ''aaa'' then Inl (Exception ''ValueError'') else Inr m, g)),
       clf_predict = (\<lambda>g m X. (Inr (map (\<lambda>x. x mod int (length m)) X), g)),
       clf_predict_proba = (\<lambda>g m X. (Inr (), g)) \<rparr>"

text \<open>
  The same collaborators with an estimator that draws from the ambient random
  generator when it is trained: the trained pipeline keeps the number drawn, and
  predicts modulo the length of what it keeps.
\<close>

definition unseeded_env :: "(nat, nat, int, int, string, unit, nat) env" where
  "unseeded_env =
     demo_env\<lparr>clf_fit := (\<lambda>g m X y. (Inr (m @ replicate g CHR ''r''), Suc g))\<rparr>"

text \<open>\<open>matches\<close> counts the correct predictions.\<close>

definition matches :: "nat \<Rightarrow> int list \<Rightarrow> int list \<Rightarrow> (collaborator_error + pyfloat) \<times> nat" where
  "matches g y_true y_pred =
     (Inr (Finite (of_nat (length (filter (\<lambda>(a, b). a = b) (zip y_true y_pred))))), g)"

text \<open>
  \<open>precision\<close> is the part of the non-zero predictions that are correct, a numpy
  division that gives NaN when no prediction is non-zero.
\<close>

definition precision :: "nat \<Rightarrow> int list \<Rightarrow> int list \<Rightarrow> (collaborator_error + pyfloat) \<times> nat" where
  "precision g y_true y_pred =
     (let positive = filter (\<lambda>(a, b). b \<noteq> 0) (zip y_true y_pred)
      in (Inr (if positive = [] then NaN
               else Finite (of_nat (length (filter (\<lambda>(a, b). a = b) positive))
                            / of_nat (length positive))), g))"

section \<open>Facts about the parts of \<open>fit\<close>\<close>

lemma slice_upto_from: "slice_upto xs k @ slice_from xs k = xs"
  by (simp add: slice_upto_def slice_from_def)

lemma is_nan_iff: "is_nan a \<longleftrightarrow> a = NaN"
  by (cases a) simp_all

lemma float_not_le:
  assumes "a \<noteq> NaN" and "b \<noteq> NaN" and "\<not> float_le a b"
  shows "float_less b a"
  using assms by (cases a; cases b) auto

lemma float_less_le: "float_less a b \<Longrightarrow> float_le a b"
  by (cases a; cases b) auto

lemma float_le_refl: "a \<noteq> NaN \<Longrightarrow> float_le a a"
  by (cases a) auto

lemma float_le_less_trans: "float_le a b \<Longrightarrow> float_less b c \<Longrightarrow> float_less a c"
  by (cases a; cases b; cases c) auto

lemma argmax_from_bound:
  assumes "best_i < i"
  shows "argmax_from xs i best_i best < i + length xs"
  using assms
proof (induction xs arbitrary: i best_i best)
  case Nil
  then show ?case by simp
next
  case (Cons x xs)
  have a: "argmax_from xs (Suc i) i x < Suc i + length xs"
    by (rule Cons.IH) simp
  have b: "argmax_from xs (Suc i) best_i best < Suc i + length xs"
    by (rule Cons.IH) (use Cons.prems in simp)
  show ?case using a b by simp
qed

lemma argmax_index:
  assumes "xs \<noteq> []"
  shows "\<exists>r. argmax xs = Inr r \<and> r < length xs"
proof -
  from assms obtain x rest where xs: "xs = x # rest" by (cases xs) auto
  have "argmax_from rest 1 0 x < 1 + length rest"
    by (rule argmax_from_bound) simp
  then show ?thesis by (simp add: xs argmax_def)
qed

lemma argmax_from_scan:
  assumes "length ps = i" and "bi < i" and "ps ! bi = b" and "b \<noteq> NaN"
    and "\<forall>j<i. float_le (ps ! j) b" and "\<forall>j<bi. float_less (ps ! j) b"
    and "NaN \<notin> set xs"
  shows "argmax_from xs i bi b < length (ps @ xs)
       \<and> (\<forall>j<length (ps @ xs). float_le ((ps @ xs) ! j) ((ps @ xs) ! argmax_from xs i bi b))
       \<and> (\<forall>j<argmax_from xs i bi b. float_less ((ps @ xs) ! j) ((ps @ xs) ! argmax_from xs i bi b))"
  using assms
proof (induction xs arbitrary: ps i bi b)
  case Nil
  then show ?case by simp
next
  case (Cons x xs)
  have xn: "x \<noteq> NaN" and rest: "NaN \<notin> set xs" using Cons.prems(7) by auto
  have len: "length (ps @ [x]) = Suc i" using Cons.prems(1) by simp
  show ?case
  proof (cases "float_le x b")
    case False
    have lt: "float_less b x" using float_not_le[OF xn Cons.prems(4) False] .
    have a: "i < Suc i" by simp
    have b': "(ps @ [x]) ! i = x" using Cons.prems(1) by (simp add: nth_append)
    have c: "\<forall>j<Suc i. float_le ((ps @ [x]) ! j) x"
      using Cons.prems(1,5) lt xn
      by (auto simp: nth_append less_Suc_eq float_le_refl
          intro: float_less_le float_le_less_trans)
    have d: "\<forall>j<i. float_less ((ps @ [x]) ! j) x"
      using Cons.prems(1,5) lt by (auto simp: nth_append intro: float_le_less_trans)
    from Cons.IH[OF len a b' xn c d rest] False xn show ?thesis
      by (simp add: is_nan_iff)
  next
    case True
    have a: "bi < Suc i" using Cons.prems(2) by simp
    have b': "(ps @ [x]) ! bi = b" using Cons.prems(1,2,3) by (simp add: nth_append)
    have c: "\<forall>j<Suc i. float_le ((ps @ [x]) ! j) b"
      using Cons.prems(1,5) True by (auto simp: nth_append less_Suc_eq)
    have d: "\<forall>j<bi. float_less ((ps @ [x]) ! j) b"
      using Cons.prems(1,2,6) by (auto simp: nth_append)
    from Cons.IH[OF len a b' Cons.prems(4) c d rest] True show ?thesis by simp
  qed
qed

lemma argmax_first_max:
  assumes "xs \<noteq> []" and "NaN \<notin> set xs"
  shows "\<exists>r. argmax xs = Inr r \<and> r < length xs \<and> (\<forall>j<length xs. float_le (xs ! j) (xs ! r))
             \<and> (\<forall>j<r. float_less (xs ! j) (xs ! r))"
proof -
  from assms obtain x rest where xs: "xs = x # rest" by (cases xs) auto
  have xn: "x \<noteq> NaN" and rest: "NaN \<notin> set rest" using assms(2) xs by auto
  have "argmax_from rest 1 0 x < length ([x] @ rest)
       \<and> (\<forall>j<length ([x] @ rest). float_le (([x] @ rest) ! j) (([x] @ rest) ! argmax_from rest 1 0 x))
       \<and> (\<forall>j<argmax_from rest 1 0 x. float_less (([x] @ rest) ! j) (([x] @ rest) ! argmax_from rest 1 0 x))"
    by (rule argmax_from_scan) (use xn rest in \<open>simp_all add: float_le_refl\<close>)
  then show ?thesis using xn by (simp add: xs argmax_def is_nan_iff)
qed

lemma iteration_config:
  "nb_iter (self (iteration E Xt yt Xv yv i st)) = nb_iter (self st)
 \<and> score (self (iteration E Xt yt Xv yv i st)) = score (self st)
 \<and> valid_ratio (self (iteration E Xt yt Xv yv i st)) = valid_ratio (self st)
 \<and> random_state (self (iteration E Xt yt Xv yv i st)) = random_state (self st)
 \<and> verbose (self (iteration E Xt yt Xv yv i st)) = verbose (self st)
 \<and> best_score (self (iteration E Xt yt Xv yv i st)) = best_score (self st)
 \<and> best_estimator (self (iteration E Xt yt Xv yv i st)) = best_estimator (self st)
 \<and> best_estimator_code (self (iteration E Xt yt Xv yv i st)) = best_estimator_code (self st)"
  by (simp add: iteration_def Let_def split: sum.splits prod.splits)

lemma iteration_appends:
  "\<exists>cs es ss. codes (self (iteration E Xt yt Xv yv i st)) = codes (self st) @ cs
     \<and> estimators (self (iteration E Xt yt Xv yv i st)) = estimators (self st) @ es
     \<and> scores (self (iteration E Xt yt Xv yv i st)) = scores (self st) @ ss
     \<and> length cs = length ss \<and> length es = length ss"
  by (simp add: iteration_def Let_def split: sum.splits prod.splits)

lemma search_loop_config:
  "nb_iter (self (search_loop E Xt yt Xv yv is st)) = nb_iter (self st)
 \<and> score (self (search_loop E Xt yt Xv yv is st)) = score (self st)
 \<and> valid_ratio (self (search_loop E Xt yt Xv yv is st)) = valid_ratio (self st)
 \<and> random_state (self (search_loop E Xt yt Xv yv is st)) = random_state (self st)
 \<and> verbose (self (search_loop E Xt yt Xv yv is st)) = verbose (self st)
 \<and> best_score (self (search_loop E Xt yt Xv yv is st)) = best_score (self st)
 \<and> best_estimator (self (search_loop E Xt yt Xv yv is st)) = best_estimator (self st)
 \<and> best_estimator_code (self (search_loop E Xt yt Xv yv is st)) = best_estimator_code (self st)"
proof (induction "is" arbitrary: st)
  case Nil
  then show ?case by simp
next
  case (Cons i rest)
  show ?case
    using Cons.IH[of "iteration E Xt yt Xv yv i st"] iteration_config[of E Xt yt Xv yv i st]
    by (simp add: Let_def)
qed

lemma search_loop_appends:
  "\<exists>cs es ss. codes (self (search_loop E Xt yt Xv yv is st)) = codes (self st) @ cs
     \<and> estimators (self (search_loop E Xt yt Xv yv is st)) = estimators (self st) @ es
     \<and> scores (self (search_loop E Xt yt Xv yv is st)) = scores (self st) @ ss
     \<and> length cs = length ss \<and> length es = length ss"
proof (induction "is" arbitrary: st)
  case Nil
  then show ?case by simp
next
  case (Cons i rest)
  obtain cs es ss where a:
    "codes (self (iteration E Xt yt Xv yv i st)) = codes (self st) @ cs"
    "estimators (self (iteration E Xt yt Xv yv i st)) = estimators (self st) @ es"
    "scores (self (iteration E Xt yt Xv yv i st)) = scores (self st) @ ss"
    "length cs = length ss" "length es = length ss"
    using iteration_appends[of E Xt yt Xv yv i st] by blast
  obtain cs' es' ss' where b:
    "codes (self (search_loop E Xt yt Xv yv rest (iteration E Xt yt Xv yv i st)))
       = codes (self (iteration E Xt yt Xv yv i st)) @ cs'"
    "estimators (self (search_loop E Xt yt Xv yv rest (iteration E Xt yt Xv yv i st)))
       = estimators (self (iteration E Xt yt Xv yv i st)) @ es'"
    "scores (self (search_loop E Xt yt Xv yv rest (iteration E Xt yt Xv yv i st)))
       = scores (self (iteration E Xt yt Xv yv i st)) @ ss'"
    "length cs' = length ss'" "length es' = length ss'"
    using Cons.IH[of "iteration E Xt yt Xv yv i st"] by blast
  show ?case
  proof (cases "raised (iteration E Xt yt Xv yv i st) \<noteq> None")
    case True
    then show ?thesis using a by (simp add: Let_def)
  next
    case False
    have "codes (self (search_loop E Xt yt Xv yv (i # rest) st)) = codes (self st) @ (cs @ cs')"
      "estimators (self (search_loop E Xt yt Xv yv (i # rest) st)) = estimators (self st) @ (es @ es')"
      "scores (self (search_loop E Xt yt Xv yv (i # rest) st)) = scores (self st) @ (ss @ ss')"
      "length (cs @ cs') = length (ss @ ss')" "length (es @ es') = length (ss @ ss')"
      using False a b by (simp_all add: Let_def)
    then show ?thesis by blast
  qed
qed

lemma select_keeps:
  "codes (self (select st)) = codes (self st)
 \<and> estimators (self (select st)) = estimators (self st)
 \<and> scores (self (select st)) = scores (self st)
 \<and> walker (self (select st)) = walker (self st)
 \<and> nb_iter (self (select st)) = nb_iter (self st)
 \<and> score (self (select st)) = score (self st)
 \<and> valid_ratio (self (select st)) = valid_ratio (self st)
 \<and> random_state (self (select st)) = random_state (self st)
 \<and> verbose (self (select st)) = verbose (self st)
 \<and> ambient (select st) = ambient st"
  by (simp add: select_def Let_def split: sum.splits)

lemma select_empty: "scores (self st) = [] \<Longrightarrow> select st = st"
  by (simp add: select_def)

lemma select_best:
  assumes "length (estimators (self st)) = length (scores (self st))"
    and "length (codes (self st)) = length (scores (self st))"
    and "scores (self st) \<noteq> []"
  shows "\<exists>idx. argmax (scores (self st)) = Inr idx \<and> idx < length (scores (self st))
      \<and> best_score (self (select st)) = Some (scores (self st) ! idx)
      \<and> best_estimator (self (select st)) = Some (estimators (self st) ! idx)
      \<and> best_estimator_code (self (select st)) = Some (codes (self st) ! idx)
      \<and> raised (select st) = raised st"
proof -
  obtain idx where idx: "argmax (scores (self st)) = Inr idx" "idx < length (scores (self st))"
    using argmax_index[OF assms(3)] by blast
  have "best_score (self (select st)) = Some (scores (self st) ! idx)
      \<and> best_estimator (self (select st)) = Some (estimators (self st) ! idx)
      \<and> best_estimator_code (self (select st)) = Some (codes (self st) ! idx)
      \<and> raised (select st) = raised st"
    using assms idx by (simp add: select_def Let_def getitem_def)
  with idx show ?thesis by blast
qed

lemma search_loop_raised_kind:
  "raised (search_loop E Xt yt Xv yv is st) = raised st
 \<or> (\<exists>ex. raised (search_loop E Xt yt Xv yv is st) = Some (Propagated ex))"
proof (induction "is" arbitrary: st)
  case Nil
  then show ?case by simp
next
  case (Cons i rest)
  have it: "raised (iteration E Xt yt Xv yv i st) = raised st
     \<or> (\<exists>ex. raised (iteration E Xt yt Xv yv i st) = Some (Propagated ex))"
    by (simp add: iteration_def Let_def split: sum.splits prod.splits)
  show ?case
    using Cons.IH[of "iteration E Xt yt Xv yv i st"] it by (auto simp: Let_def)
qed

lemma select_raised_kind:
  "raised (select st) = raised st \<or> raised (select st) = Some IndexError
 \<or> raised (select st) = Some ValueError"
  by (simp add: select_def Let_def getitem_def argmax_def split: sum.splits list.splits)

lemma search_and_select_not_assertion:
  "raised (search_and_select E g c Xt yt Xv yv) \<noteq> Some AssertionError"
proof -
  let ?st = "search_loop E Xt yt Xv yv [0..<nat (nb_iter c)]
               \<lparr>self = c, ambient = g, printed = [], raised = None\<rparr>"
  have a: "raised ?st = None \<or> (\<exists>ex. raised ?st = Some (Propagated ex))"
    using search_loop_raised_kind[of E Xt yt Xv yv "[0..<nat (nb_iter c)]"
        "\<lparr>self = c, ambient = g, printed = [], raised = None\<rparr>"] by simp
  show ?thesis
  proof (cases "raised ?st = None")
    case True
    then show ?thesis
      using select_raised_kind[of ?st] by (auto simp: search_and_select_def Let_def)
  next
    case False
    then show ?thesis using a by (auto simp: search_and_select_def Let_def)
  qed
qed

lemma search_and_select_appends:
  "\<exists>cs es ss. codes (self (search_and_select E g c Xt yt Xv yv)) = codes c @ cs
     \<and> estimators (self (search_and_select E g c Xt yt Xv yv)) = estimators c @ es
     \<and> scores (self (search_and_select E g c Xt yt Xv yv)) = scores c @ ss
     \<and> length cs = length ss \<and> length es = length ss"
  using search_loop_appends[of E Xt yt Xv yv "[0..<nat (nb_iter c)]"
      "\<lparr>self = c, ambient = g, printed = [], raised = None\<rparr>"]
  by (auto simp: search_and_select_def Let_def select_keeps)

lemma fit_shape:
  "(\<exists>ex. fit E g c X y Xv yv = \<lparr>self = c, ambient = g, printed = [], raised = Some ex\<rparr>
        \<and> resolve E c X y Xv yv = Inl ex)
 \<or> fit E g c X y Xv yv = \<lparr>self = c, ambient = g, printed = [], raised = Some AssertionError\<rparr>
 \<or> (\<exists>Xt yt V yV. resolve E c X y Xv yv = Inr (Xt, yt, Some V, Some yV)
       \<and> fit E g c X y Xv yv = search_and_select E g c Xt yt V yV)"
  by (auto simp: fit_def split: sum.splits option.splits prod.splits)

lemma fit_appends:
  "\<exists>cs es ss. codes (self (fit E g c X y Xv yv)) = codes c @ cs
     \<and> estimators (self (fit E g c X y Xv yv)) = estimators c @ es
     \<and> scores (self (fit E g c X y Xv yv)) = scores c @ ss
     \<and> length cs = length ss \<and> length es = length ss"
  using fit_shape[of E g c X y Xv yv] search_and_select_appends[of E g c]
  by (elim disjE exE conjE) (simp_all)

lemma search_and_select_best:
  assumes "length (estimators c) = length (scores c)"
    and "length (codes c) = length (scores c)"
    and "raised (search_and_select E g c Xt yt Xv yv) = None"
    and "scores (self (search_and_select E g c Xt yt Xv yv)) \<noteq> []"
  shows "\<exists>idx. argmax (scores (self (search_and_select E g c Xt yt Xv yv))) = Inr idx
      \<and> idx < length (scores (self (search_and_select E g c Xt yt Xv yv)))
      \<and> best_score (self (search_and_select E g c Xt yt Xv yv))
          = Some (scores (self (search_and_select E g c Xt yt Xv yv)) ! idx)
      \<and> best_estimator (self (search_and_select E g c Xt yt Xv yv))
          = Some (estimators (self (search_and_select E g c Xt yt Xv yv)) ! idx)
      \<and> best_estimator_code (self (search_and_select E g c Xt yt Xv yv))
          = Some (codes (self (search_and_select E g c Xt yt Xv yv)) ! idx)"
proof -
  let ?st = "search_loop E Xt yt Xv yv [0..<nat (nb_iter c)]
               \<lparr>self = c, ambient = g, printed = [], raised = None\<rparr>"
  have r: "raised ?st = None"
    using assms(3) by (auto simp: search_and_select_def Let_def split: if_splits)
  then have eq: "search_and_select E g c Xt yt Xv yv = select ?st"
    by (simp add: search_and_select_def Let_def)
  obtain cs es ss where ap: "codes (self ?st) = codes c @ cs" "estimators (self ?st) = estimators c @ es"
    "scores (self ?st) = scores c @ ss" "length cs = length ss" "length es = length ss"
    using search_loop_appends[of E Xt yt Xv yv "[0..<nat (nb_iter c)]"
      "\<lparr>self = c, ambient = g, printed = [], raised = None\<rparr>"] by auto
  have l1: "length (estimators (self ?st)) = length (scores (self ?st))"
    and l2: "length (codes (self ?st)) = length (scores (self ?st))"
    using ap assms(1,2) by simp_all
  have ne: "scores (self ?st) \<noteq> []"
    using assms(4) by (simp add: eq select_keeps)
  obtain idx where idx: "argmax (scores (self ?st)) = Inr idx" "idx < length (scores (self ?st))"
    "best_score (self (select ?st)) = Some (scores (self ?st) ! idx)"
    "best_estimator (self (select ?st)) = Some (estimators (self ?st) ! idx)"
    "best_estimator_code (self (select ?st)) = Some (codes (self ?st) ! idx)"
    using select_best[OF l1 l2 ne] by blast
  show ?thesis
    unfolding eq using idx by (intro exI[of _ idx]) (simp add: select_keeps)
qed

lemma init_lists:
  "codes (init n sc w r seed v) = [] \<and> estimators (init n sc w r seed v) = []
 \<and> scores (init n sc w r seed v) = [] \<and> best_score (init n sc w r seed v) = None
 \<and> best_estimator (init n sc w r seed v) = None
 \<and> best_estimator_code (init n sc w r seed v) = None"
  by (simp add: init_def)

lemma fits_equal_lengths:
  assumes "length (estimators c) = length (scores c)" and "length (codes c) = length (scores c)"
  shows "length (estimators (fst (fits E g c calls))) = length (scores (fst (fits E g c calls)))
       \<and> length (codes (fst (fits E g c calls))) = length (scores (fst (fits E g c calls)))"
  using assms
proof (induction calls arbitrary: c g)
  case Nil
  then show ?case by simp
next
  case (Cons call calls)
  obtain X y Xv yv where call: "call = (X, y, Xv, yv)" by (cases call) auto
  obtain cs es ss where ap: "codes (self (fit E g c X y Xv yv)) = codes c @ cs"
    "estimators (self (fit E g c X y Xv yv)) = estimators c @ es"
    "scores (self (fit E g c X y Xv yv)) = scores c @ ss"
    "length cs = length ss" "length es = length ss"
    using fit_appends[of E g c X y Xv yv] by blast
  have "length (estimators (self (fit E g c X y Xv yv))) = length (scores (self (fit E g c X y Xv yv)))"
    "length (codes (self (fit E g c X y Xv yv))) = length (scores (self (fit E g c X y Xv yv)))"
    using ap Cons.prems by simp_all
  from Cons.IH[OF this] show ?case by (simp add: call)
qed

lemma fit_best:
  assumes "length (estimators c) = length (scores c)"
    and "length (codes c) = length (scores c)"
    and "raised (fit E g c X y Xv yv) = None"
    and "scores (self (fit E g c X y Xv yv)) \<noteq> []"
  shows "\<exists>idx. argmax (scores (self (fit E g c X y Xv yv))) = Inr idx
      \<and> idx < length (scores (self (fit E g c X y Xv yv)))
      \<and> best_score (self (fit E g c X y Xv yv)) = Some (scores (self (fit E g c X y Xv yv)) ! idx)
      \<and> best_estimator (self (fit E g c X y Xv yv))
          = Some (estimators (self (fit E g c X y Xv yv)) ! idx)
      \<and> best_estimator_code (self (fit E g c X y Xv yv))
          = Some (codes (self (fit E g c X y Xv yv)) ! idx)"
proof -
  obtain Xt yt V yV where "fit E g c X y Xv yv = search_and_select E g c Xt yt V yV"
    using fit_shape[of E g c X y Xv yv] assms(3) by auto
  then show ?thesis
    using search_and_select_best[OF assms(1,2), of E g Xt yt V yV] assms(3,4) by simp
qed

lemma int_of_float_exact:
  assumes "0 < r"
  shows "int_of_float (Finite (of_nat n * r)) = Inr \<lfloor>of_nat n * r\<rfloor>"
  using assms by simp

lemma slice_lengths:
  assumes "0 \<le> k" and "k \<le> int (length xs)"
  shows "int (length (slice_from xs (int (length xs) - k))) = k"
    and "int (length (slice_upto xs (int (length xs) - k))) = int (length xs) - k"
  using assms by (auto simp: slice_from_def slice_upto_def slice_bound_def)

lemma slice_from_nonempty:
  "slice_from xs (int (length xs) - k) \<noteq> [] \<longleftrightarrow> xs \<noteq> [] \<and> 1 \<le> k"
  by (auto simp: slice_from_def slice_bound_def max_def split: if_splits)

lemma resolve_ratio:
  assumes "float_less (Finite 0) (valid_ratio c)"
    and "shuffle E (random_state c) X y = Inr (Xs, ys)"
    and "int_of_float (float_mul E (length Xs) (valid_ratio c)) = Inr k"
  shows "resolve E c X y None None
           = Inr (slice_upto Xs (int (length Xs) - k), slice_upto ys (int (length Xs) - k),
                  Some (slice_from Xs (int (length Xs) - k)),
                  Some (slice_from ys (int (length Xs) - k)))"
  using assms by (simp add: resolve_def Let_def)

lemma iteration_split_config:
  "iteration E Xt yt Xv yv i (st\<lparr>self := (self st)\<lparr>valid_ratio := r, random_state := s\<rparr>\<rparr>)
   = (iteration E Xt yt Xv yv i st)
       \<lparr>self := (self (iteration E Xt yt Xv yv i st))\<lparr>valid_ratio := r, random_state := s\<rparr>\<rparr>"
  by (simp add: iteration_def Let_def split: sum.splits prod.splits)

lemma search_loop_split_config:
  "search_loop E Xt yt Xv yv is (st\<lparr>self := (self st)\<lparr>valid_ratio := r, random_state := s\<rparr>\<rparr>)
   = (search_loop E Xt yt Xv yv is st)
       \<lparr>self := (self (search_loop E Xt yt Xv yv is st))\<lparr>valid_ratio := r, random_state := s\<rparr>\<rparr>"
proof (induction "is" arbitrary: st)
  case Nil
  then show ?case by simp
next
  case (Cons i rest)
  show ?case
    using Cons.IH[of "iteration E Xt yt Xv yv i st"]
    by (simp add: iteration_split_config Let_def)
qed

lemma select_split_config:
  "select (st\<lparr>self := (self st)\<lparr>valid_ratio := r, random_state := s\<rparr>\<rparr>)
   = (select st)\<lparr>self := (self (select st))\<lparr>valid_ratio := r, random_state := s\<rparr>\<rparr>"
  by (simp add: select_def Let_def split: sum.splits)

lemma search_and_select_split_config:
  fixes c :: "('w, 'y, 'm, 'g) classifier"
  shows "search_and_select E g (c\<lparr>valid_ratio := r, random_state := s\<rparr>) Xt yt Xv yv
   = (search_and_select E g c Xt yt Xv yv)
       \<lparr>self := (self (search_and_select E g c Xt yt Xv yv))\<lparr>valid_ratio := r, random_state := s\<rparr>\<rparr>"
proof -
  let ?st = "\<lparr>self = c, ambient = g, printed = [], raised = None\<rparr> :: ('w, 'y, 'm, 'g) outcome"
  have init: "\<lparr>self = c\<lparr>valid_ratio := r, random_state := s\<rparr>, ambient = g, printed = [], raised = None\<rparr>
                = ?st\<lparr>self := (self ?st)\<lparr>valid_ratio := r, random_state := s\<rparr>\<rparr>"
    by simp
  show ?thesis
    unfolding search_and_select_def Let_def
    apply (simp only: init)
    apply (simp only: search_loop_split_config)
    apply (simp add: select_split_config)
    done
qed

lemma iteration_code:
  "codes (self (iteration E Xt yt Xv yv i st)) = codes (self st)
 \<or> codes (self (iteration E Xt yt Xv yv i st))
      = codes (self st) @ [as_str E (terminals E (walk E (walker (self st))))]"
  by (simp add: iteration_def Let_def split: sum.splits prod.splits)

lemma search_and_select_code:
  assumes "nb_iter c = 1"
  shows "codes (self (search_and_select E g c Xt yt Xv yv)) = codes c
       \<or> codes (self (search_and_select E g c Xt yt Xv yv))
            = codes c @ [as_str E (terminals E (walk E (walker c)))]"
proof -
  have one: "[0..<nat (nb_iter c)] = [0]" using assms by simp
  show ?thesis
    using iteration_code[of E Xt yt Xv yv 0 "\<lparr>self = c, ambient = g, printed = [], raised = None\<rparr>"]
    by (auto simp: search_and_select_def one Let_def select_keeps)
qed

lemma fit_code:
  assumes "nb_iter c = 1"
  shows "set (drop (length (codes c)) (codes (self (fit E g c X y Xv yv))))
           \<subseteq> {as_str E (terminals E (walk E (walker c)))}"
proof -
  consider (same) "codes (self (fit E g c X y Xv yv)) = codes c"
    | (one) "codes (self (fit E g c X y Xv yv))
               = codes c @ [as_str E (terminals E (walk E (walker c)))]"
  proof -
    consider (raise) "self (fit E g c X y Xv yv) = c"
      | (run) Xt yt V yV where "fit E g c X y Xv yv = search_and_select E g c Xt yt V yV"
      using fit_shape[of E g c X y Xv yv] by auto
    then show ?thesis
    proof cases
      case raise
      then show ?thesis using that(1) by simp
    next
      case run
      then show ?thesis
        using search_and_select_code[OF assms, of E g Xt yt V yV] that by auto
    qed
  qed
  then show ?thesis by cases simp_all
qed

lemma iteration_same_candidates:
  assumes "walker (self s1) = walker (self s2)" and "score (self s1) = score (self s2)"
    and "raised s1 = raised s2" and "ambient s1 = ambient s2"
  shows "walker (self (iteration E Xt yt Xv yv i s1)) = walker (self (iteration E Xt yt Xv yv i s2))
       \<and> raised (iteration E Xt yt Xv yv i s1) = raised (iteration E Xt yt Xv yv i s2)
       \<and> ambient (iteration E Xt yt Xv yv i s1) = ambient (iteration E Xt yt Xv yv i s2)
       \<and> (\<exists>cs es ss.
             codes (self (iteration E Xt yt Xv yv i s1)) = codes (self s1) @ cs
           \<and> codes (self (iteration E Xt yt Xv yv i s2)) = codes (self s2) @ cs
           \<and> estimators (self (iteration E Xt yt Xv yv i s1)) = estimators (self s1) @ es
           \<and> estimators (self (iteration E Xt yt Xv yv i s2)) = estimators (self s2) @ es
           \<and> scores (self (iteration E Xt yt Xv yv i s1)) = scores (self s1) @ ss
           \<and> scores (self (iteration E Xt yt Xv yv i s2)) = scores (self s2) @ ss)"
  using assms by (simp add: iteration_def Let_def split: sum.splits prod.splits)

lemma search_loop_same_candidates:
  assumes "walker (self s1) = walker (self s2)" and "score (self s1) = score (self s2)"
    and "raised s1 = raised s2" and "ambient s1 = ambient s2"
  shows "walker (self (search_loop E Xt yt Xv yv is s1)) = walker (self (search_loop E Xt yt Xv yv is s2))
       \<and> raised (search_loop E Xt yt Xv yv is s1) = raised (search_loop E Xt yt Xv yv is s2)
       \<and> ambient (search_loop E Xt yt Xv yv is s1) = ambient (search_loop E Xt yt Xv yv is s2)
       \<and> (\<exists>cs es ss.
             codes (self (search_loop E Xt yt Xv yv is s1)) = codes (self s1) @ cs
           \<and> codes (self (search_loop E Xt yt Xv yv is s2)) = codes (self s2) @ cs
           \<and> estimators (self (search_loop E Xt yt Xv yv is s1)) = estimators (self s1) @ es
           \<and> estimators (self (search_loop E Xt yt Xv yv is s2)) = estimators (self s2) @ es
           \<and> scores (self (search_loop E Xt yt Xv yv is s1)) = scores (self s1) @ ss
           \<and> scores (self (search_loop E Xt yt Xv yv is s2)) = scores (self s2) @ ss)"
  using assms
proof (induction "is" arbitrary: s1 s2)
  case Nil
  then show ?case by simp
next
  case (Cons i rest)
  let ?t1 = "iteration E Xt yt Xv yv i s1" and ?t2 = "iteration E Xt yt Xv yv i s2"
  have w: "walker (self ?t1) = walker (self ?t2)" and r: "raised ?t1 = raised ?t2"
    and g: "ambient ?t1 = ambient ?t2"
    using iteration_same_candidates[OF Cons.prems, of E Xt yt Xv yv i] by blast+
  obtain cs es ss where a:
    "codes (self ?t1) = codes (self s1) @ cs" "codes (self ?t2) = codes (self s2) @ cs"
    "estimators (self ?t1) = estimators (self s1) @ es" "estimators (self ?t2) = estimators (self s2) @ es"
    "scores (self ?t1) = scores (self s1) @ ss" "scores (self ?t2) = scores (self s2) @ ss"
    using iteration_same_candidates[OF Cons.prems, of E Xt yt Xv yv i] by blast
  have sc: "score (self ?t1) = score (self ?t2)"
    using Cons.prems(2) by (simp add: iteration_config)
  show ?case
  proof (cases "raised ?t1 \<noteq> None")
    case True
    then show ?thesis using w r g a by (simp add: Let_def)
  next
    case False
    let ?u1 = "search_loop E Xt yt Xv yv rest ?t1" and ?u2 = "search_loop E Xt yt Xv yv rest ?t2"
    have w': "walker (self ?u1) = walker (self ?u2)" and r': "raised ?u1 = raised ?u2"
      and g': "ambient ?u1 = ambient ?u2"
      using Cons.IH[OF w sc r g] by blast+
    obtain cs' es' ss' where b:
      "codes (self ?u1) = codes (self ?t1) @ cs'" "codes (self ?u2) = codes (self ?t2) @ cs'"
      "estimators (self ?u1) = estimators (self ?t1) @ es'" "estimators (self ?u2) = estimators (self ?t2) @ es'"
      "scores (self ?u1) = scores (self ?t1) @ ss'" "scores (self ?u2) = scores (self ?t2) @ ss'"
      using Cons.IH[OF w sc r g] by blast
    have eq: "search_loop E Xt yt Xv yv (i # rest) s1 = ?u1" "search_loop E Xt yt Xv yv (i # rest) s2 = ?u2"
      using False r by (simp_all add: Let_def)
    have "codes (self ?u1) = codes (self s1) @ (cs @ cs')" "codes (self ?u2) = codes (self s2) @ (cs @ cs')"
      "estimators (self ?u1) = estimators (self s1) @ (es @ es')"
      "estimators (self ?u2) = estimators (self s2) @ (es @ es')"
      "scores (self ?u1) = scores (self s1) @ (ss @ ss')" "scores (self ?u2) = scores (self s2) @ (ss @ ss')"
      using a b by simp_all
    then show ?thesis unfolding eq using w' r' g' by blast
  qed
qed

lemma search_and_select_same_candidates:
  fixes c1 c2 :: "('w, 'y, 'm, 'g) classifier"
  assumes "nb_iter c1 = nb_iter c2" and "walker c1 = walker c2" and "score c1 = score c2"
  shows "walker (self (search_and_select E g c1 Xt yt Xv yv)) = walker (self (search_and_select E g c2 Xt yt Xv yv))
       \<and> ambient (search_and_select E g c1 Xt yt Xv yv) = ambient (search_and_select E g c2 Xt yt Xv yv)
       \<and> (\<exists>cs es ss.
             codes (self (search_and_select E g c1 Xt yt Xv yv)) = codes c1 @ cs
           \<and> codes (self (search_and_select E g c2 Xt yt Xv yv)) = codes c2 @ cs
           \<and> estimators (self (search_and_select E g c1 Xt yt Xv yv)) = estimators c1 @ es
           \<and> estimators (self (search_and_select E g c2 Xt yt Xv yv)) = estimators c2 @ es
           \<and> scores (self (search_and_select E g c1 Xt yt Xv yv)) = scores c1 @ ss
           \<and> scores (self (search_and_select E g c2 Xt yt Xv yv)) = scores c2 @ ss)"
proof -
  let ?s1 = "\<lparr>self = c1, ambient = g, printed = [], raised = None\<rparr> :: ('w, 'y, 'm, 'g) outcome"
  let ?s2 = "\<lparr>self = c2, ambient = g, printed = [], raised = None\<rparr> :: ('w, 'y, 'm, 'g) outcome"
  have h: "walker (self ?s1) = walker (self ?s2)" "score (self ?s1) = score (self ?s2)"
    "raised ?s1 = raised ?s2" "ambient ?s1 = ambient ?s2"
    using assms by simp_all
  note L = search_loop_same_candidates[OF h, of E Xt yt Xv yv "[0..<nat (nb_iter c1)]"]
  have keep: "walker (self (search_and_select E g c Xt yt Xv yv))
                = walker (self (search_loop E Xt yt Xv yv [0..<nat (nb_iter c)] \<lparr>self = c, ambient = g, printed = [], raised = None\<rparr>))
      \<and> ambient (search_and_select E g c Xt yt Xv yv)
                = ambient (search_loop E Xt yt Xv yv [0..<nat (nb_iter c)] \<lparr>self = c, ambient = g, printed = [], raised = None\<rparr>)
      \<and> codes (self (search_and_select E g c Xt yt Xv yv))
                = codes (self (search_loop E Xt yt Xv yv [0..<nat (nb_iter c)] \<lparr>self = c, ambient = g, printed = [], raised = None\<rparr>))
      \<and> estimators (self (search_and_select E g c Xt yt Xv yv))
                = estimators (self (search_loop E Xt yt Xv yv [0..<nat (nb_iter c)] \<lparr>self = c, ambient = g, printed = [], raised = None\<rparr>))
      \<and> scores (self (search_and_select E g c Xt yt Xv yv))
                = scores (self (search_loop E Xt yt Xv yv [0..<nat (nb_iter c)] \<lparr>self = c, ambient = g, printed = [], raised = None\<rparr>))"
    for c :: "('w, 'y, 'm, 'g) classifier"
    by (simp add: search_and_select_def Let_def select_keeps)
  show ?thesis
    using L keep[of c1] keep[of c2] assms(1) by simp
qed

lemma search_loop_every_training_fails:
  assumes "every_training_fails E Xt yt (length is) (walker (self st)) (ambient st)"
  shows "raised (search_loop E Xt yt Xv yv is st) = raised st
       \<and> codes (self (search_loop E Xt yt Xv yv is st)) = codes (self st)
       \<and> estimators (self (search_loop E Xt yt Xv yv is st)) = estimators (self st)
       \<and> scores (self (search_loop E Xt yt Xv yv is st)) = scores (self st)"
  using assms
proof (induction "is" arbitrary: st)
  case Nil
  then show ?case by simp
next
  case (Cons i rest)
  let ?t = "iteration E Xt yt Xv yv i st"
  have step: "raised ?t = raised st \<and> codes (self ?t) = codes (self st)
      \<and> estimators (self ?t) = estimators (self st) \<and> scores (self ?t) = scores (self st)
      \<and> every_training_fails E Xt yt (length rest) (walker (self ?t)) (ambient ?t)"
    using Cons.prems by (auto simp: iteration_def Let_def split: sum.splits prod.splits)
  show ?case
    using Cons.IH[of ?t] step by (simp add: Let_def)
qed

lemma fit_without_candidates:
  assumes "scores (self (fit E g c X y Xv yv)) = []"
  shows "best_score (self (fit E g c X y Xv yv)) = best_score c
       \<and> best_estimator (self (fit E g c X y Xv yv)) = best_estimator c
       \<and> best_estimator_code (self (fit E g c X y Xv yv)) = best_estimator_code c"
proof -
  consider (raise) "self (fit E g c X y Xv yv) = c"
    | (run) Xt yt V yV where "fit E g c X y Xv yv = search_and_select E g c Xt yt V yV"
    using fit_shape[of E g c X y Xv yv] by auto
  then show ?thesis
  proof cases
    case raise
    then show ?thesis by simp
  next
    case run
    let ?st = "search_loop E Xt yt V yV [0..<nat (nb_iter c)]
                 \<lparr>self = c, ambient = g, printed = [], raised = None\<rparr>"
    have cfg: "best_score (self ?st) = best_score c \<and> best_estimator (self ?st) = best_estimator c
        \<and> best_estimator_code (self ?st) = best_estimator_code c"
      using search_loop_config[of E Xt yt V yV "[0..<nat (nb_iter c)]"
          "\<lparr>self = c, ambient = g, printed = [], raised = None\<rparr>"] by simp
    have "scores (self ?st) = []"
      using assms run by (simp add: search_and_select_def Let_def select_keeps split: if_splits)
    then have "search_and_select E g c Xt yt V yV = ?st"
      by (simp add: search_and_select_def Let_def select_empty)
    then show ?thesis using run cfg by simp
  qed
qed

lemma fits_without_candidates:
  assumes "scores c = [] \<longrightarrow>
             best_score c = None \<and> best_estimator c = None \<and> best_estimator_code c = None"
    and "scores (fst (fits E g c calls)) = []"
  shows "best_score (fst (fits E g c calls)) = None \<and> best_estimator (fst (fits E g c calls)) = None
       \<and> best_estimator_code (fst (fits E g c calls)) = None"
  using assms
proof (induction calls arbitrary: c g)
  case Nil
  then show ?case by simp
next
  case (Cons call calls)
  obtain X y Xv yv where call: "call = (X, y, Xv, yv)" by (cases call) auto
  let ?c = "self (fit E g c X y Xv yv)"
  have keep: "scores ?c = [] \<longrightarrow>
                best_score ?c = None \<and> best_estimator ?c = None \<and> best_estimator_code ?c = None"
  proof
    assume e: "scores ?c = []"
    obtain ss where "scores ?c = scores c @ ss" using fit_appends[of E g c X y Xv yv] by blast
    then have "scores c = []" using e by simp
    then show "best_score ?c = None \<and> best_estimator ?c = None \<and> best_estimator_code ?c = None"
      using fit_without_candidates[OF e] Cons.prems(1) by simp
  qed
  have "scores (fst (fits E (ambient (fit E g c X y Xv yv)) ?c calls)) = []"
    using Cons.prems(2) by (simp add: call)
  from Cons.IH[OF keep this] show ?case by (simp add: call)
qed

lemma resolve_raises:
  assumes "resolve E c X y X_valid y_valid = Inl ex"
  shows "ex \<noteq> AssertionError \<and> X_valid = None \<and> y_valid = None"
proof -
  have k: "e \<noteq> AssertionError" if "int_of_float f = Inl e" for f e
    using that by (cases f) auto
  show ?thesis
    using assms k by (auto simp: resolve_def Let_def split: if_splits sum.splits prod.splits)
qed

section \<open>The claims\<close>

text \<open>
  Claim C1, as amended. In an iteration of the search loop whose pipeline is
  constructed and whose training raises an exception of class \<open>Exception\<close>, the
  result is discarded: the iteration appends nothing to \<open>codes\<close>, \<open>estimators\<close> and
  \<open>scores\<close>, raises nothing, and the loop goes on with the next iteration from the
  advanced walker (having printed two lines when \<open>verbose\<close> is set).
\<close>

theorem training_failure_is_skipped:
  assumes "raised st = None"
    and "eval_code E (ambient st) (as_str E (terminals E (walk E (walker (self st))))) = (Inr clf, g1)"
    and "clf_fit E g1 clf X_train y_train = (Inl ex, g2)"
    and "is_Exception ex"
  shows "codes (self (iteration E X_train y_train X_valid y_valid i st)) = codes (self st)
       \<and> estimators (self (iteration E X_train y_train X_valid y_valid i st)) = estimators (self st)
       \<and> scores (self (iteration E X_train y_train X_valid y_valid i st)) = scores (self st)
       \<and> raised (iteration E X_train y_train X_valid y_valid i st) = None
       \<and> search_loop E X_train y_train X_valid y_valid (i # rest) st =
           search_loop E X_train y_train X_valid y_valid rest
             (st\<lparr>self := (self st)\<lparr>walker := walk E (walker (self st))\<rparr>,
                 ambient := g2,
                 printed := printed st @
                   (if verbose (self st)
                    then [Exception_on_iteration i
                            (as_str E (terminals E (walk E (walker (self st))))), Str_ex ex]
                    else [])\<rparr>)"
  using assms by (simp add: iteration_def Let_def)

theorem training_failure_is_skipped_witness:
  "scores (self (search_loop demo_env [1, 2] [1, 2] [3] [3] [0, 1]
       \<lparr>self = init 2 matches 2 (Finite 0) 42 False, ambient = 0, printed = [], raised = None\<rparr>))
     = [Finite 1]
   \<and> raised (search_loop demo_env [1, 2] [1, 2] [3] [3] [0, 1]
       \<lparr>self = init 2 matches 2 (Finite 0) 42 False, ambient = 0, printed = [], raised = None\<rparr>)
     = None"
proof -
  let ?st = "\<lparr>self = init 2 matches 2 (Finite 0) 42 False, ambient = 0, printed = [], raised = None\<rparr>
               :: (nat, int, string, nat) outcome"
  have a: "raised ?st = None" by simp
  have b: "eval_code demo_env (ambient ?st)
             (as_str demo_env (terminals demo_env (walk demo_env (walker (self ?st)))))
             = (Inr ''aaa'', 0)"
    by code_simp
  have c: "clf_fit demo_env 0 ''aaa'' [1, 2] [1, 2] = (Inl (Exception ''ValueError''), 0)"
    by (simp add: demo_env_def)
  have d: "is_Exception (Exception ''ValueError'')" by simp
  note step = training_failure_is_skipped[OF a b c d, of "[3]" "[3]" 0 "[1]"]
  have e: "search_loop demo_env [1, 2] [1, 2] [3] [3] [0, 1] ?st =
           search_loop demo_env [1, 2] [1, 2] [3] [3] [1]
             (?st\<lparr>self := (self ?st)\<lparr>walker := walk demo_env (walker (self ?st))\<rparr>,
                 ambient := 0,
                 printed := printed ?st @
                   (if verbose (self ?st)
                    then [Exception_on_iteration 0
                            (as_str demo_env (terminals demo_env (walk demo_env (walker (self ?st))))),
                          Str_ex (Exception ''ValueError'')]
                    else [])\<rparr>)"
    using step by blast
  show ?thesis
    unfolding e by code_simp
qed

text \<open>
  Claim C1 as stated also covers a failure while constructing the pipeline. The call
  of \<open>eval\<close> stands before the \<open>try\<close>: with two iterations asked for and a walker whose
  next code cannot be constructed, \<open>fit\<close> raises the exception of \<open>eval\<close> to its
  caller and the second iteration never runs (the walker has advanced once).
\<close>

theorem construction_failure_counterexample:
  "raised (fit demo_env 0 (init 2 matches 1 (Finite 0) 42 False) [1, 2] [1, 2] None None)
     = Some (Propagated (Exception ''NameError''))
   \<and> walker (self (fit demo_env 0 (init 2 matches 1 (Finite 0) 42 False) [1, 2] [1, 2] None None)) = 2"
  by code_simp

text \<open>
  Claim C2. \<open>fit\<close> raises the \<open>AssertionError\<close> of line 103 if and only if the
  resolution of lines 86 to 101 ends with \<open>X_valid\<close> or \<open>y_valid\<close> still \<open>None\<close>,
  which is the case exactly when one of the two arguments is given without the other;
  the call then ends before the loop: the instance and the ambient state are as they
  were and nothing is printed. When both are resolved the assertion is not what \<open>fit\<close>
  raises.
\<close>

theorem assertion_iff_no_validation_data:
  "(raised (fit E g c X y X_valid y_valid) = Some AssertionError
      \<longleftrightarrow> (\<exists>Xt yt V yV. resolve E c X y X_valid y_valid = Inr (Xt, yt, V, yV)
                         \<and> (V = None \<or> yV = None)))
 \<and> (raised (fit E g c X y X_valid y_valid) = Some AssertionError
      \<longleftrightarrow> (X_valid = None) \<noteq> (y_valid = None))
 \<and> (raised (fit E g c X y X_valid y_valid) = Some AssertionError
      \<longrightarrow> fit E g c X y X_valid y_valid
            = \<lparr>self = c, ambient = g, printed = [], raised = Some AssertionError\<rparr>)"
proof (cases "resolve E c X y X_valid y_valid")
  case (Inl ex)
  then have "ex \<noteq> AssertionError \<and> X_valid = None \<and> y_valid = None"
    by (rule resolve_raises)
  then show ?thesis using Inl by (simp add: fit_def)
next
  case (Inr t)
  obtain Xt yt V yV where t: "t = (Xt, yt, V, yV)" by (cases t) auto
  have none: "(V = None \<or> yV = None) \<longleftrightarrow> (X_valid = None) \<noteq> (y_valid = None)"
    using Inr t by (auto simp: resolve_def Let_def split: if_splits sum.splits prod.splits)
  show ?thesis
  proof (cases "V = None \<or> yV = None")
    case True
    then have "fit E g c X y X_valid y_valid
                 = \<lparr>self = c, ambient = g, printed = [], raised = Some AssertionError\<rparr>"
      using Inr t by (auto simp: fit_def split: option.splits)
    then show ?thesis using Inr t True none by simp
  next
    case False
    then obtain V' yV' where "V = Some V'" "yV = Some yV'" by auto
    then have "fit E g c X y X_valid y_valid = search_and_select E g c Xt yt V' yV'"
      using Inr t by (simp add: fit_def)
    then show ?thesis
      using Inr t False none search_and_select_not_assertion[of E g c Xt yt V' yV'] by simp
  qed
qed

theorem assertion_iff_no_validation_data_witness:
  "fit demo_env 0 (init 1 matches 0 (Finite 0) 42 False) [1] [1] (Some [1]) None
     = \<lparr>self = init 1 matches 0 (Finite 0) 42 False, ambient = 0, printed = [],
        raised = Some AssertionError\<rparr>"
proof -
  have "(Some [1::int] = None) \<noteq> ((None :: int list option) = None)" by simp
  then show ?thesis
    using assertion_iff_no_validation_data[of demo_env 0 "init 1 matches 0 (Finite 0) 42 False"
        "[1]" "[1]" "Some [1]" None]
    by blast
qed

text \<open>
  Claim C3, as amended. After a call of \<open>fit\<close> that returns with a non-empty \<open>scores\<close>
  in which no entry is NaN, on an instance whose three lists had equal lengths,
  \<open>best_score\<close> is the maximum of \<open>scores\<close> (every entry is \<open><=\<close> it), it stands at an
  index \<open>idx\<close> with every entry before it \<open><\<close> it (the first maximum), and
  \<open>best_estimator\<close> and \<open>best_estimator_code\<close> are the entries of \<open>estimators\<close> and
  \<open>codes\<close> at \<open>idx\<close>.
\<close>

theorem best_is_first_maximum:
  assumes "length (estimators c) = length (scores c)"
    and "length (codes c) = length (scores c)"
    and "raised (fit E g c X y X_valid y_valid) = None"
    and "scores (self (fit E g c X y X_valid y_valid)) \<noteq> []"
    and "NaN \<notin> set (scores (self (fit E g c X y X_valid y_valid)))"
  shows "\<exists>idx<length (scores (self (fit E g c X y X_valid y_valid))).
           best_score (self (fit E g c X y X_valid y_valid))
             = Some (scores (self (fit E g c X y X_valid y_valid)) ! idx)
         \<and> (\<forall>j<length (scores (self (fit E g c X y X_valid y_valid))).
               float_le (scores (self (fit E g c X y X_valid y_valid)) ! j)
                        (scores (self (fit E g c X y X_valid y_valid)) ! idx))
         \<and> (\<forall>j<idx. float_less (scores (self (fit E g c X y X_valid y_valid)) ! j)
                                 (scores (self (fit E g c X y X_valid y_valid)) ! idx))
         \<and> best_estimator (self (fit E g c X y X_valid y_valid))
             = Some (estimators (self (fit E g c X y X_valid y_valid)) ! idx)
         \<and> best_estimator_code (self (fit E g c X y X_valid y_valid))
             = Some (codes (self (fit E g c X y X_valid y_valid)) ! idx)"
proof -
  let ?c = "self (fit E g c X y X_valid y_valid)"
  obtain idx where idx: "argmax (scores ?c) = Inr idx" "idx < length (scores ?c)"
    "best_score ?c = Some (scores ?c ! idx)"
    "best_estimator ?c = Some (estimators ?c ! idx)"
    "best_estimator_code ?c = Some (codes ?c ! idx)"
    using fit_best[OF assms(1-4)] by blast
  obtain r where r: "argmax (scores ?c) = Inr r"
    "\<forall>j<length (scores ?c). float_le (scores ?c ! j) (scores ?c ! r)"
    "\<forall>j<r. float_less (scores ?c ! j) (scores ?c ! r)"
    using argmax_first_max[OF assms(4,5)] by blast
  have "r = idx" using r(1) idx(1) by simp
  then show ?thesis
    using idx r by (intro exI[of _ idx]) simp
qed

theorem best_is_first_maximum_witness:
  "scores (self (fit demo_env 0 (init 2 matches 3 (Finite 0) 42 False) [1, 2, 3] [1, 2, 3] None None))
     = [Finite 3, Finite 3]
 \<and> codes (self (fit demo_env 0 (init 2 matches 3 (Finite 0) 42 False) [1, 2, 3] [1, 2, 3] None None))
     = [''aaaa'', ''aaaaa'']
 \<and> best_score (self (fit demo_env 0 (init 2 matches 3 (Finite 0) 42 False) [1, 2, 3] [1, 2, 3] None None))
     = Some (Finite 3)
 \<and> best_estimator_code
      (self (fit demo_env 0 (init 2 matches 3 (Finite 0) 42 False) [1, 2, 3] [1, 2, 3] None None))
     = Some ''aaaa''"
proof -
  let ?c0 = "init 2 matches 3 (Finite 0) 42 False :: (nat, int, string, nat) classifier"
  let ?st = "fit demo_env 0 ?c0 [1, 2, 3] [1, 2, 3] None None"
  have a: "length (estimators ?c0) = length (scores ?c0)" by (simp add: init_def)
  have b: "length (codes ?c0) = length (scores ?c0)" by (simp add: init_def)
  have c: "raised ?st = None" by code_simp
  have s: "scores (self ?st) = [Finite 3, Finite 3]" by code_simp
  have k: "codes (self ?st) = [''aaaa'', ''aaaaa'']" by code_simp
  have d: "scores (self ?st) \<noteq> []" unfolding s by simp
  have n: "NaN \<notin> set (scores (self ?st))" unfolding s by simp
  obtain idx where idx: "best_score (self ?st) = Some (scores (self ?st) ! idx)"
    "\<forall>j<idx. float_less (scores (self ?st) ! j) (scores (self ?st) ! idx)"
    "idx < length (scores (self ?st))"
    "best_estimator_code (self ?st) = Some (codes (self ?st) ! idx)"
    using best_is_first_maximum[OF a b c d n] by blast
  have "idx = 0"
  proof (rule ccontr)
    assume "idx \<noteq> 0"
    then have i: "idx = 1" "0 < idx" using idx(3)[unfolded s] by simp_all
    have "float_less ([Finite 3, Finite 3] ! 0) ([Finite 3, Finite 3] ! idx)"
      using idx(2)[unfolded s] i(2) by blast
    then show False using i(1) by simp
  qed
  then show ?thesis using idx(1,4)[unfolded s k] s k by simp
qed

text \<open>
  Claim C3 as stated holds for every scoring function. With a scoring function that
  gives NaN for the second of three candidates, \<open>np.argmax\<close> stops at the NaN:
  \<open>best_score\<close> is NaN and the best pipeline is the second one, while the third has
  the score 1, which is not \<open><=\<close> NaN.
\<close>

theorem nan_score_counterexample:
  "scores (self (fit demo_env 0 (init 3 precision 3 (Finite 0) 42 False) [5, 10] [5, 4] None None))
     = [Finite 0, NaN, Finite 1]
 \<and> raised (fit demo_env 0 (init 3 precision 3 (Finite 0) 42 False) [5, 10] [5, 4] None None) = None
 \<and> best_score (self (fit demo_env 0 (init 3 precision 3 (Finite 0) 42 False) [5, 10] [5, 4] None None))
     = Some NaN
 \<and> best_estimator_code
      (self (fit demo_env 0 (init 3 precision 3 (Finite 0) 42 False) [5, 10] [5, 4] None None))
     = Some ''aaaaa''
 \<and> \<not> float_le (Finite 1) NaN"
  by code_simp

text \<open>
  Claim C4, as amended. With no explicit validation data, \<open>valid_ratio > 0\<close> and a
  shuffle under \<open>random_state\<close> that returns as many rows as it was given: when
  \<open>int(len(X) * valid_ratio)\<close> raises (an infinite or NaN product), \<open>fit\<close> raises that
  error and leaves the instance as it was; when it evaluates to \<open>k\<close>, the training part
  and the validation part are a prefix and the matching suffix of the shuffled data,
  so they partition it, for features and for labels; when \<open>0 \<le> k \<le> total_rows\<close> the
  validation part has exactly \<open>k\<close> rows and the training part the others; and \<open>k\<close> is
  \<open>floor (valid_ratio * total_rows)\<close> whenever the float product is the exact one.
\<close>

theorem ratio_split:
  assumes "float_less (Finite 0) (valid_ratio c)"
    and "shuffle E (random_state c) X y = Inr (Xs, ys)"
    and "length Xs = length X" and "length ys = length X"
  shows "case int_of_float (float_mul E (length X) (valid_ratio c)) of
           Inl ex \<Rightarrow>
             fit E g c X y None None = \<lparr>self = c, ambient = g, printed = [], raised = Some ex\<rparr>
         | Inr k \<Rightarrow>
             (\<exists>X_train y_train V yV.
                resolve E c X y None None = Inr (X_train, y_train, Some V, Some yV)
              \<and> fit E g c X y None None = search_and_select E g c X_train y_train V yV
              \<and> X_train @ V = Xs \<and> y_train @ yV = ys
              \<and> (0 \<le> k \<and> k \<le> int (length X) \<longrightarrow>
                   int (length V) = k \<and> int (length yV) = k
                 \<and> int (length X_train) = int (length X) - k
                 \<and> int (length y_train) = int (length X) - k)
              \<and> (\<forall>r. valid_ratio c = Finite r
                      \<and> float_mul E (length X) (Finite r) = Finite (of_nat (length X) * r)
                    \<longrightarrow> k = \<lfloor>of_nat (length X) * r\<rfloor>))"
proof (cases "int_of_float (float_mul E (length X) (valid_ratio c))")
  case (Inl ex)
  have "resolve E c X y None None = Inl ex"
    using assms Inl by (simp add: resolve_def)
  then show ?thesis using Inl by (simp add: fit_def)
next
  case (Inr k)
  let ?n = "int (length X) - k"
  have k': "int_of_float (float_mul E (length Xs) (valid_ratio c)) = Inr k"
    using Inr assms(3) by simp
  have res: "resolve E c X y None None
               = Inr (slice_upto Xs ?n, slice_upto ys ?n, Some (slice_from Xs ?n), Some (slice_from ys ?n))"
    using resolve_ratio[OF assms(1,2) k'] assms(3) by simp
  have fit: "fit E g c X y None None
               = search_and_select E g c (slice_upto Xs ?n) (slice_upto ys ?n)
                   (slice_from Xs ?n) (slice_from ys ?n)"
    by (simp add: fit_def res)
  have sizes: "int (length (slice_from Xs ?n)) = k \<and> int (length (slice_from ys ?n)) = k
      \<and> int (length (slice_upto Xs ?n)) = int (length X) - k
      \<and> int (length (slice_upto ys ?n)) = int (length X) - k"
    if "0 \<le> k \<and> k \<le> int (length X)"
    using slice_lengths[of k Xs] slice_lengths[of k ys] that assms(3,4) by simp
  have exact: "k = \<lfloor>of_nat (length X) * r\<rfloor>"
    if "valid_ratio c = Finite r \<and> float_mul E (length X) (Finite r) = Finite (of_nat (length X) * r)"
    for r
  proof -
    have "0 < r" using assms(1) that by simp
    then show ?thesis using Inr that int_of_float_exact[of r "length X"] by simp
  qed
  have "\<exists>X_train y_train V yV.
                resolve E c X y None None = Inr (X_train, y_train, Some V, Some yV)
              \<and> fit E g c X y None None = search_and_select E g c X_train y_train V yV
              \<and> X_train @ V = Xs \<and> y_train @ yV = ys
              \<and> (0 \<le> k \<and> k \<le> int (length X) \<longrightarrow>
                   int (length V) = k \<and> int (length yV) = k
                 \<and> int (length X_train) = int (length X) - k
                 \<and> int (length y_train) = int (length X) - k)
              \<and> (\<forall>r. valid_ratio c = Finite r
                      \<and> float_mul E (length X) (Finite r) = Finite (of_nat (length X) * r)
                    \<longrightarrow> k = \<lfloor>of_nat (length X) * r\<rfloor>)"
    using res fit sizes exact slice_upto_from[of Xs ?n] slice_upto_from[of ys ?n] by blast
  then show ?thesis using Inr by simp
qed

theorem ratio_split_witness:
  "resolve demo_env (init 1 matches 0 (Finite (1 / 2)) 42 False) [1, 2, 3, 4, 5] [6, 7, 8, 9, 10]
     None None
     = Inr ([5, 4, 3], [10, 9, 8], Some [2, 1], Some [7, 6])
 \<and> int_of_float (float_mul demo_env (length [1, 2, 3, 4, 5 :: int]) (Finite (1 / 2))) = Inr 2
 \<and> (\<exists>X_train V. X_train @ V = [5, 4, 3, 2, 1 :: int] \<and> int (length V) = 2
        \<and> int (length X_train) = 3)"
proof -
  let ?c = "init 1 matches 0 (Finite (1 / 2)) 42 False :: (nat, int, string, nat) classifier"
  have a: "float_less (Finite 0) (valid_ratio ?c)" by (simp add: init_def)
  have b: "shuffle demo_env (random_state ?c) [1, 2, 3, 4, 5] [6, 7, 8, 9, 10]
             = Inr ([5, 4, 3, 2, 1], [10, 9, 8, 7, 6])"
    by (simp add: demo_env_def)
  have l1: "length [5, 4, 3, 2, 1 :: int] = length [1, 2, 3, 4, 5 :: int]" by simp
  have l2: "length [10, 9, 8, 7, 6 :: int] = length [1, 2, 3, 4, 5 :: int]" by simp
  have v: "valid_ratio ?c = Finite (1 / 2)" by (simp add: init_def)
  have k: "int_of_float (float_mul demo_env (length [1, 2, 3, 4, 5 :: int]) (Finite (1 / 2))) = Inr 2"
    by code_simp
  have r: "resolve demo_env ?c [1, 2, 3, 4, 5] [6, 7, 8, 9, 10] None None
     = Inr ([5, 4, 3], [10, 9, 8], Some [2, 1], Some [7, 6])" by code_simp
  note T = ratio_split[OF a b l1 l2, of 0, unfolded v k sum.case]
  obtain X_train :: "int list" and V :: "int list" where w:
    "X_train @ V = [5, 4, 3, 2, 1]"
    "0 \<le> (2 :: int) \<and> 2 \<le> int (length [1, 2, 3, 4, 5 :: int]) \<longrightarrow>
       int (length V) = 2 \<and> int (length X_train) = int (length [1, 2, 3, 4, 5 :: int]) - 2"
    using T by blast
  have sz: "int (length V) = 2" "int (length X_train) = 3"
    using w(2) by simp_all
  have ex: "\<exists>X_train V. X_train @ V = [5, 4, 3, 2, 1 :: int] \<and> int (length V) = 2
      \<and> int (length X_train) = 3"
    using w(1) sz by blast
  show ?thesis
    by (intro conjI) (rule r, rule k, rule ex)
qed

text \<open>
  Claim C4 as stated gives the validation part \<open>floor (r * total_rows)\<close> rows for every
  \<open>r > 0\<close>. With two rows and \<open>r = 3 / 2\<close> the product is exactly 3; \<open>nb_train\<close> is
  \<open>- 1\<close>, the slices count it from the end, and the validation part has one row.
\<close>

theorem ratio_above_one_counterexample:
  "resolve demo_env (init 1 matches 0 (Finite (3 / 2)) 42 False) [1, 2] [1, 2] None None
     = Inr ([2], [2], Some [1], Some [1])
 \<and> float_mul demo_env (length [1, 2 :: int]) (Finite (3 / 2)) = Finite 3
 \<and> \<lfloor>of_nat (length [1, 2 :: int]) * (3 / 2 :: rat)\<rfloor> = 3"
  by code_simp

text \<open>
  Claim C5, as amended. Whenever a call of \<open>fit\<close> records a scored candidate, the
  validation data was resolved (neither part is \<open>None\<close>) and the loop ran on it. Its
  features are non-empty exactly when: the explicit \<open>X_valid\<close> is non-empty; or, with no
  explicit data and \<open>valid_ratio > 0\<close> false, \<open>X\<close> is non-empty; or, with no explicit
  data and \<open>valid_ratio > 0\<close>, the data has a row and \<open>int(len(X) * valid_ratio)\<close>, as
  the float product gives it, is at least one.
\<close>

theorem validation_data_when_scored:
  assumes "length (scores c) < length (scores (self (fit E g c X y X_valid y_valid)))"
  shows "\<exists>X_train y_train V yV.
           resolve E c X y X_valid y_valid = Inr (X_train, y_train, Some V, Some yV)
         \<and> fit E g c X y X_valid y_valid = search_and_select E g c X_train y_train V yV
         \<and> (V \<noteq> [] \<longleftrightarrow>
              (if X_valid = None \<and> y_valid = None then
                 if float_less (Finite 0) (valid_ratio c)
                 then X_train @ V \<noteq> []
                    \<and> (case int_of_float (float_mul E (length (X_train @ V)) (valid_ratio c)) of
                         Inl ex \<Rightarrow> False
                       | Inr k \<Rightarrow> 1 \<le> k)
                 else X \<noteq> []
               else X_valid \<noteq> Some []))"
proof -
  obtain X_train y_train V yV where
    res: "resolve E c X y X_valid y_valid = Inr (X_train, y_train, Some V, Some yV)"
    and fit: "fit E g c X y X_valid y_valid = search_and_select E g c X_train y_train V yV"
    using fit_shape[of E g c X y X_valid y_valid] assms by auto
  have "V \<noteq> [] \<longleftrightarrow>
              (if X_valid = None \<and> y_valid = None then
                 if float_less (Finite 0) (valid_ratio c)
                 then X_train @ V \<noteq> []
                    \<and> (case int_of_float (float_mul E (length (X_train @ V)) (valid_ratio c)) of
                         Inl ex \<Rightarrow> False
                       | Inr k \<Rightarrow> 1 \<le> k)
                 else X \<noteq> []
               else X_valid \<noteq> Some [])"
  proof (cases "X_valid = None \<and> y_valid = None")
    case False
    then show ?thesis using res by (auto simp: resolve_def)
  next
    case True
    show ?thesis
    proof (cases "float_less (Finite 0) (valid_ratio c)")
      case False
      then show ?thesis using res True by (auto simp: resolve_def)
    next
      case pos: True
      obtain Xs ys where sh: "shuffle E (random_state c) X y = Inr (Xs, ys)"
        using res True pos by (auto simp: resolve_def split: sum.splits)
      obtain k where k: "int_of_float (float_mul E (length Xs) (valid_ratio c)) = Inr k"
        using res True pos sh by (auto simp: resolve_def split: sum.splits)
      have parts: "X_train = slice_upto Xs (int (length Xs) - k)"
        "V = slice_from Xs (int (length Xs) - k)"
        using res True resolve_ratio[OF pos sh k] by simp_all
      have whole: "X_train @ V = Xs" unfolding parts by (rule slice_upto_from)
      have "V \<noteq> [] \<longleftrightarrow> Xs \<noteq> [] \<and> 1 \<le> k"
        unfolding parts(2) by (rule slice_from_nonempty)
      then show ?thesis using True pos whole k by simp
    qed
  qed
  with res fit show ?thesis by blast
qed

theorem validation_data_when_scored_witness:
  "length (scores (init 1 matches 0 (Finite (1 / 2)) 42 False :: (nat, int, string, nat) classifier))
     < length (scores (self (fit demo_env 0 (init 1 matches 0 (Finite (1 / 2)) 42 False)
                               [1, 2] [1, 2] None None)))
 \<and> resolve demo_env (init 1 matches 0 (Finite (1 / 2)) 42 False) [1, 2] [1, 2] None None
     = Inr ([2], [2], Some [1], Some [1])"
proof -
  let ?c = "init 1 matches 0 (Finite (1 / 2)) 42 False :: (nat, int, string, nat) classifier"
  have a: "length (scores ?c) < length (scores (self (fit demo_env 0 ?c [1, 2] [1, 2] None None)))"
    by code_simp
  have r: "resolve demo_env ?c [1, 2] [1, 2] None None = Inr ([2], [2], Some [1], Some [1])"
    by code_simp
  obtain X_train y_train V yV where
    "resolve demo_env ?c [1, 2] [1, 2] None None = Inr (X_train, y_train, Some V, Some yV)"
    using validation_data_when_scored[OF a] by blast
  then show ?thesis using a r by simp
qed

text \<open>
  Claim C5 as stated has the validation set non-empty whenever a candidate is scored.
  With one row and \<open>valid_ratio = 1 / 2\<close> the validation part is empty, and the
  candidate is trained, scored on it and recorded.
\<close>

theorem empty_validation_counterexample:
  "length (scores (self (fit demo_env 0 (init 1 matches 0 (Finite (1 / 2)) 42 False)
                           [1] [1] None None))) = 1
 \<and> resolve demo_env (init 1 matches 0 (Finite (1 / 2)) 42 False) [1] [1] None None
     = Inr ([1], [1], Some [], Some [])"
  by code_simp

text \<open>
  Claim C6, as amended. On a fresh instance: if the validation data is resolved and
  every iteration constructs its pipeline and fails in training with an exception of
  class \<open>Exception\<close>, the call of \<open>fit\<close> returns without raising and the three lists
  stay empty; and after any sequence of calls of \<open>fit\<close>, returned or raised, as long as
  \<open>scores\<close> is empty the three best-fields are unset and \<open>predict\<close> and
  \<open>predict_proba\<close> fail with the \<open>AttributeError\<close> of the lookup on \<open>None\<close>.
\<close>

theorem no_candidate_leaves_no_model:
  assumes "c0 = init n sc w r seed v"
  shows "(resolve E c0 X y X_valid y_valid = Inr (X_train, y_train, Some V, Some yV)
            \<and> every_training_fails E X_train y_train (nat n) w g \<longrightarrow>
          raised (fit E g c0 X y X_valid y_valid) = None
            \<and> codes (self (fit E g c0 X y X_valid y_valid)) = []
            \<and> estimators (self (fit E g c0 X y X_valid y_valid)) = []
            \<and> scores (self (fit E g c0 X y X_valid y_valid)) = [])
       \<and> (scores (fst (fits E g c0 calls)) = [] \<longrightarrow>
          best_score (fst (fits E g c0 calls)) = None
            \<and> best_estimator (fst (fits E g c0 calls)) = None
            \<and> best_estimator_code (fst (fits E g c0 calls)) = None
            \<and> predict E g' (fst (fits E g c0 calls)) X' = (Inl AttributeError, g')
            \<and> predict_proba E g' (fst (fits E g c0 calls)) X' = (Inl AttributeError, g'))"
proof (intro conjI impI)
  assume h: "resolve E c0 X y X_valid y_valid = Inr (X_train, y_train, Some V, Some yV)
            \<and> every_training_fails E X_train y_train (nat n) w g"
  let ?st = "search_loop E X_train y_train V yV [0..<nat (nb_iter c0)]
               \<lparr>self = c0, ambient = g, printed = [], raised = None\<rparr>"
  have f: "fit E g c0 X y X_valid y_valid = search_and_select E g c0 X_train y_train V yV"
    using h by (simp add: fit_def)
  have "every_training_fails E X_train y_train (length [0..<nat (nb_iter c0)])
          (walker (self \<lparr>self = c0, ambient = g, printed = [], raised = None\<rparr>))
          (ambient \<lparr>self = c0, ambient = g, printed = [], raised = None\<rparr>)"
    using h assms by (simp add: init_def)
  from search_loop_every_training_fails[OF this, of V yV]
  have l: "raised ?st = None" "codes (self ?st) = []" "estimators (self ?st) = []" "scores (self ?st) = []"
    using assms by (simp_all add: init_def)
  have "search_and_select E g c0 X_train y_train V yV = ?st"
    using l by (simp add: search_and_select_def Let_def select_empty)
  then show "raised (fit E g c0 X y X_valid y_valid) = None"
    "codes (self (fit E g c0 X y X_valid y_valid)) = []"
    "estimators (self (fit E g c0 X y X_valid y_valid)) = []"
    "scores (self (fit E g c0 X y X_valid y_valid)) = []"
    using f l by simp_all
next
  assume e: "scores (fst (fits E g c0 calls)) = []"
  have i: "scores c0 = [] \<longrightarrow>
             best_score c0 = None \<and> best_estimator c0 = None \<and> best_estimator_code c0 = None"
    using assms by (simp add: init_def)
  note u = fits_without_candidates[OF i e]
  from u show "best_score (fst (fits E g c0 calls)) = None"
    "best_estimator (fst (fits E g c0 calls)) = None"
    "best_estimator_code (fst (fits E g c0 calls)) = None" by simp_all
  from u show "predict E g' (fst (fits E g c0 calls)) X' = (Inl AttributeError, g')"
    "predict_proba E g' (fst (fits E g c0 calls)) X' = (Inl AttributeError, g')"
    by (simp_all add: predict_def predict_proba_def)
qed

theorem no_candidate_leaves_no_model_witness:
  "raised (fit demo_env 0 (init 1 matches 2 (Finite 0) 42 False) [1, 2] [1, 2] None None) = None
 \<and> scores (self (fit demo_env 0 (init 1 matches 2 (Finite 0) 42 False) [1, 2] [1, 2] None None)) = []
 \<and> predict demo_env 0
     (fst (fits demo_env 0 (init 1 matches 2 (Finite 0) 42 False) [([1, 2], [1, 2], None, None)])) [7]
     = (Inl AttributeError, 0)
 \<and> predict_proba demo_env 0
     (fst (fits demo_env 0 (init 1 matches 2 (Finite 0) 42 False) [([1, 2], [1, 2], None, None)])) [7]
     = (Inl AttributeError, 0)"
proof -
  let ?c0 = "init 1 matches 2 (Finite 0) 42 False :: (nat, int, string, nat) classifier"
  have r: "resolve demo_env ?c0 [1, 2] [1, 2] None None = Inr ([1, 2], [1, 2], Some [1, 2], Some [1, 2])"
    by code_simp
  have t: "every_training_fails demo_env [1, 2] [1, 2] (nat 1) (2 :: nat) (0 :: nat)"
    by code_simp
  have e: "scores (fst (fits demo_env 0 ?c0 [([1, 2], [1, 2], None, None)])) = []"
    by code_simp
  note T = no_candidate_leaves_no_model[of ?c0 1 matches 2 "Finite 0" 42 False demo_env "[1, 2]" "[1, 2]"
      None None "[1, 2]" "[1, 2]" "[1, 2]" "[1, 2]" 0 "[([1, 2], [1, 2], None, None)]" 0 "[7]", OF refl]
  have a: "raised (fit demo_env 0 ?c0 [1, 2] [1, 2] None None) = None
      \<and> scores (self (fit demo_env 0 ?c0 [1, 2] [1, 2] None None)) = []"
    using T r t by blast
  have b: "predict demo_env 0 (fst (fits demo_env 0 ?c0 [([1, 2], [1, 2], None, None)])) [7]
             = (Inl AttributeError, 0)
      \<and> predict_proba demo_env 0 (fst (fits demo_env 0 ?c0 [([1, 2], [1, 2], None, None)])) [7]
             = (Inl AttributeError, 0)"
    using T e by blast
  show ?thesis using a b by blast
qed

text \<open>
  Claim C6 as stated has \<open>fit\<close> complete without raising whenever the candidate
  sequence is empty after it because every iteration failed. With one iteration
  whose code cannot be constructed, the sequence is empty and \<open>fit\<close> has raised.
\<close>

theorem fit_raises_without_candidate_counterexample:
  "scores (self (fit demo_env 0 (init 1 matches 1 (Finite 0) 42 False) [1, 2] [1, 2] None None)) = []
 \<and> raised (fit demo_env 0 (init 1 matches 1 (Finite 0) 42 False) [1, 2] [1, 2] None None)
     = Some (Propagated (Exception ''NameError''))"
  by code_simp

text \<open>
  Claim C7. When both \<open>X_valid\<close> and \<open>y_valid\<close> are given, the resolution returns
  \<open>X\<close>, \<open>y\<close> and the two arguments as they are, \<open>fit\<close> is the loop and the selection
  on exactly these, and \<open>valid_ratio\<close> and \<open>random_state\<close> have no effect: with any
  other values of the two settings the call prints the same, raises the same and
  leaves the same instance and ambient state, the two settings apart.
\<close>

theorem explicit_validation_data_is_used:
  "resolve E c X y (Some X_valid) (Some y_valid) = Inr (X, y, Some X_valid, Some y_valid)
 \<and> fit E g c X y (Some X_valid) (Some y_valid) = search_and_select E g c X y X_valid y_valid
 \<and> fit E g (c\<lparr>valid_ratio := r, random_state := s\<rparr>) X y (Some X_valid) (Some y_valid)
     = (fit E g c X y (Some X_valid) (Some y_valid))
         \<lparr>self := (self (fit E g c X y (Some X_valid) (Some y_valid)))
                    \<lparr>valid_ratio := r, random_state := s\<rparr>\<rparr>"
  by (simp add: resolve_def fit_def search_and_select_split_config)

text \<open>
  Claim C8. With no explicit validation data and \<open>valid_ratio = 0\<close>, the resolution
  returns \<open>X\<close> and \<open>y\<close> themselves as the training data and as the validation data,
  without a call of the shuffle, and \<open>fit\<close> is the loop and the selection on them.
\<close>

theorem zero_ratio_uses_training_set:
  assumes "valid_ratio c = Finite 0"
  shows "resolve E c X y None None = Inr (X, y, Some X, Some y)
       \<and> fit E g c X y None None = search_and_select E g c X y X y"
  using assms by (simp add: resolve_def fit_def)

theorem zero_ratio_uses_training_set_witness:
  "resolve demo_env (init 1 matches 0 (Finite 0) 42 False) [1, 2] [3, 4] None None
     = Inr ([1, 2], [3, 4], Some [1, 2], Some [3, 4])"
proof -
  have "valid_ratio (init 1 matches 0 (Finite 0) 42 False :: (nat, int, string, nat) classifier)
          = Finite 0"
    by (simp add: init_def)
  from zero_ratio_uses_training_set[OF this, of demo_env "[1, 2]" "[3, 4]"]
  show ?thesis by simp
qed

text \<open>
  Claim C9, as amended. Two instances with \<open>nb_iter = 1\<close>, the same walker state,
  \<open>random_state\<close>, \<open>valid_ratio\<close> and scoring function, whatever their histories and
  their \<open>verbose\<close>, fitted on the same data, render the same pipeline code: what a run
  appends to \<open>codes\<close> is nothing or that code. When the two runs also start in the same
  ambient state (the state of what constructing, training, predicting and scoring
  draw from), they append the same codes, scores and pipelines and leave the walker
  and the ambient state the same.
\<close>

theorem same_configuration_same_candidate:
  assumes "nb_iter c1 = 1" and "nb_iter c2 = 1"
    and "walker c1 = walker c2" and "random_state c1 = random_state c2"
    and "valid_ratio c1 = valid_ratio c2" and "score c1 = score c2"
  shows "set (drop (length (codes c1)) (codes (self (fit E g1 c1 X y X_valid y_valid))))
           \<subseteq> {as_str E (terminals E (walk E (walker c1)))}
       \<and> set (drop (length (codes c2)) (codes (self (fit E g2 c2 X y X_valid y_valid))))
           \<subseteq> {as_str E (terminals E (walk E (walker c1)))}
       \<and> (g1 = g2 \<longrightarrow>
            drop (length (codes c1)) (codes (self (fit E g1 c1 X y X_valid y_valid)))
              = drop (length (codes c2)) (codes (self (fit E g2 c2 X y X_valid y_valid)))
          \<and> drop (length (scores c1)) (scores (self (fit E g1 c1 X y X_valid y_valid)))
              = drop (length (scores c2)) (scores (self (fit E g2 c2 X y X_valid y_valid)))
          \<and> drop (length (estimators c1)) (estimators (self (fit E g1 c1 X y X_valid y_valid)))
              = drop (length (estimators c2)) (estimators (self (fit E g2 c2 X y X_valid y_valid)))
          \<and> walker (self (fit E g1 c1 X y X_valid y_valid))
              = walker (self (fit E g2 c2 X y X_valid y_valid))
          \<and> ambient (fit E g1 c1 X y X_valid y_valid) = ambient (fit E g2 c2 X y X_valid y_valid))"
proof (intro conjI impI)
  show "set (drop (length (codes c1)) (codes (self (fit E g1 c1 X y X_valid y_valid))))
           \<subseteq> {as_str E (terminals E (walk E (walker c1)))}"
    by (rule fit_code[OF assms(1)])
  show "set (drop (length (codes c2)) (codes (self (fit E g2 c2 X y X_valid y_valid))))
           \<subseteq> {as_str E (terminals E (walk E (walker c1)))}"
    using fit_code[OF assms(2), of E g2 X y X_valid y_valid] assms(3) by simp
next
  assume same: "g1 = g2"
  have res: "resolve E c1 X y X_valid y_valid = resolve E c2 X y X_valid y_valid"
    by (simp only: resolve_def assms(4,5))
  have n: "nb_iter c1 = nb_iter c2" using assms(1,2) by simp
  have all: "drop (length (codes c1)) (codes (self (fit E g1 c1 X y X_valid y_valid)))
              = drop (length (codes c2)) (codes (self (fit E g2 c2 X y X_valid y_valid)))
          \<and> drop (length (scores c1)) (scores (self (fit E g1 c1 X y X_valid y_valid)))
              = drop (length (scores c2)) (scores (self (fit E g2 c2 X y X_valid y_valid)))
          \<and> drop (length (estimators c1)) (estimators (self (fit E g1 c1 X y X_valid y_valid)))
              = drop (length (estimators c2)) (estimators (self (fit E g2 c2 X y X_valid y_valid)))
          \<and> walker (self (fit E g1 c1 X y X_valid y_valid))
              = walker (self (fit E g2 c2 X y X_valid y_valid))
          \<and> ambient (fit E g1 c1 X y X_valid y_valid) = ambient (fit E g2 c2 X y X_valid y_valid)"
  proof (cases "resolve E c2 X y X_valid y_valid")
    case (Inl ex)
    then show ?thesis using res assms(3) same by (simp add: fit_def)
  next
    case (Inr t)
    obtain Xt yt V yV where t: "t = (Xt, yt, V, yV)" by (cases t) auto
    show ?thesis
    proof (cases "V = None \<or> yV = None")
      case True
      then show ?thesis using res Inr t assms(3) same by (auto simp: fit_def split: option.splits)
    next
      case False
      then obtain V' yV' where s: "V = Some V'" "yV = Some yV'" by auto
      have f: "fit E g1 c1 X y X_valid y_valid = search_and_select E g2 c1 Xt yt V' yV'"
        "fit E g2 c2 X y X_valid y_valid = search_and_select E g2 c2 Xt yt V' yV'"
        using res Inr t s same by (simp_all add: fit_def)
      show ?thesis
        unfolding f
        using search_and_select_same_candidates[OF n assms(3,6), of E g2 Xt yt V' yV'] by auto
    qed
  qed
  from all show
    "drop (length (codes c1)) (codes (self (fit E g1 c1 X y X_valid y_valid)))
       = drop (length (codes c2)) (codes (self (fit E g2 c2 X y X_valid y_valid)))"
    "drop (length (scores c1)) (scores (self (fit E g1 c1 X y X_valid y_valid)))
       = drop (length (scores c2)) (scores (self (fit E g2 c2 X y X_valid y_valid)))"
    "drop (length (estimators c1)) (estimators (self (fit E g1 c1 X y X_valid y_valid)))
       = drop (length (estimators c2)) (estimators (self (fit E g2 c2 X y X_valid y_valid)))"
    "walker (self (fit E g1 c1 X y X_valid y_valid))
       = walker (self (fit E g2 c2 X y X_valid y_valid))"
    "ambient (fit E g1 c1 X y X_valid y_valid) = ambient (fit E g2 c2 X y X_valid y_valid)"
    by simp_all
qed

theorem same_configuration_same_candidate_witness:
  "drop (length (codes ((init 1 matches (4 :: nat) (Finite 0) 42 True)
                          \<lparr>estimators := [''zz''], scores := [Finite 7], codes := [''zz'']\<rparr>)))
     (codes (self (fit unseeded_env 2
        ((init 1 matches (4 :: nat) (Finite 0) 42 True)
           \<lparr>estimators := [''zz''], scores := [Finite 7], codes := [''zz'']\<rparr>)
        [4, 5] [4, 5] None None))) = [''aaaaa'']
 \<and> drop (length (scores ((init 1 matches (4 :: nat) (Finite 0) 42 True)
                          \<lparr>estimators := [''zz''], scores := [Finite 7], codes := [''zz'']\<rparr>)))
     (scores (self (fit unseeded_env 2
        ((init 1 matches (4 :: nat) (Finite 0) 42 True)
           \<lparr>estimators := [''zz''], scores := [Finite 7], codes := [''zz'']\<rparr>)
        [4, 5] [4, 5] None None))) = [Finite 2]"
proof -
  let ?c1 = "init 1 matches 4 (Finite 0) 42 False :: (nat, int, string, nat) classifier"
  let ?c2 = "(init 1 matches 4 (Finite 0) 42 True)
               \<lparr>estimators := [''zz''], scores := [Finite 7], codes := [''zz'']\<rparr>
               :: (nat, int, string, nat) classifier"
  have h: "nb_iter ?c1 = 1" "nb_iter ?c2 = 1" "walker ?c1 = walker ?c2"
    "random_state ?c1 = random_state ?c2" "valid_ratio ?c1 = valid_ratio ?c2" "score ?c1 = score ?c2"
    by (simp_all add: init_def)
  have a: "drop (length (codes ?c1)) (codes (self (fit unseeded_env 2 ?c1 [4, 5] [4, 5] None None)))
             = [''aaaaa'']"
    by code_simp
  have b: "drop (length (scores ?c1)) (scores (self (fit unseeded_env 2 ?c1 [4, 5] [4, 5] None None)))
             = [Finite 2]"
    by code_simp
  note T = same_configuration_same_candidate[OF h, of unseeded_env 2 "[4, 5]" "[4, 5]" None None 2]
  have eq: "drop (length (codes ?c1)) (codes (self (fit unseeded_env 2 ?c1 [4, 5] [4, 5] None None)))
              = drop (length (codes ?c2)) (codes (self (fit unseeded_env 2 ?c2 [4, 5] [4, 5] None None)))"
    "drop (length (scores ?c1)) (scores (self (fit unseeded_env 2 ?c1 [4, 5] [4, 5] None None)))
              = drop (length (scores ?c2)) (scores (self (fit unseeded_env 2 ?c2 [4, 5] [4, 5] None None)))"
    using T by blast+
  show ?thesis
    by (intro conjI) (rule a[unfolded eq(1)], rule b[unfolded eq(2)])
qed

text \<open>
  Claim C9 as stated asks for the walker's randomness only to be controlled. With
  an estimator that draws from the ambient random generator when it is trained, two
  runs of the same instance on the same data, from the same walker state and with
  the same \<open>random_state\<close>, render the same code and record different scores.
\<close>

theorem unseeded_estimator_counterexample:
  "codes (self (fit unseeded_env 0 (init 1 matches 3 (Finite 0) 42 False) [4, 5] [4, 5] None None))
     = [''aaaa'']
 \<and> codes (self (fit unseeded_env 1 (init 1 matches 3 (Finite 0) 42 False) [4, 5] [4, 5] None None))
     = [''aaaa'']
 \<and> scores (self (fit unseeded_env 0 (init 1 matches 3 (Finite 0) 42 False) [4, 5] [4, 5] None None))
     = [Finite 0]
 \<and> scores (self (fit unseeded_env 1 (init 1 matches 3 (Finite 0) 42 False) [4, 5] [4, 5] None None))
     = [Finite 1]"
  by code_simp

text \<open>
  Claim C10. On an instance made by \<open>init\<close> and any sequence of calls of \<open>fit\<close>, the
  three lists have equal lengths, before and after a further call; the further call
  keeps the lists it found as prefixes of the lists it leaves; and when it returns
  with a non-empty \<open>scores\<close>, the best-fields are the entries at the index that
  \<open>np.argmax\<close> gives on the whole of \<open>scores\<close>, earlier calls' candidates included,
  which is an index of its maximum when no score is NaN.
\<close>

theorem candidate_lists_accumulate:
  "let c = fst (fits E g0 (init n sc w r seed v) calls); st = fit E g c X y X_valid y_valid in
     length (codes c) = length (scores c) \<and> length (estimators c) = length (scores c)
   \<and> length (codes (self st)) = length (scores (self st))
   \<and> length (estimators (self st)) = length (scores (self st))
   \<and> (\<exists>cs es ss. codes (self st) = codes c @ cs \<and> estimators (self st) = estimators c @ es
          \<and> scores (self st) = scores c @ ss)
   \<and> (raised st = None \<and> scores (self st) \<noteq> [] \<longrightarrow>
        (\<exists>idx<length (scores (self st)).
            argmax (scores (self st)) = Inr idx
          \<and> best_score (self st) = Some (scores (self st) ! idx)
          \<and> best_estimator (self st) = Some (estimators (self st) ! idx)
          \<and> best_estimator_code (self st) = Some (codes (self st) ! idx)
          \<and> (NaN \<notin> set (scores (self st)) \<longrightarrow>
               (\<forall>j<length (scores (self st)).
                  float_le (scores (self st) ! j) (scores (self st) ! idx)))))"
proof -
  let ?c = "fst (fits E g0 (init n sc w r seed v) calls)"
  let ?st = "fit E g ?c X y X_valid y_valid"
  have l: "length (estimators ?c) = length (scores ?c)" "length (codes ?c) = length (scores ?c)"
    using fits_equal_lengths[of "init n sc w r seed v" E g0 calls] by (simp_all add: init_lists)
  obtain cs es ss where ap: "codes (self ?st) = codes ?c @ cs"
    "estimators (self ?st) = estimators ?c @ es" "scores (self ?st) = scores ?c @ ss"
    "length cs = length ss" "length es = length ss"
    using fit_appends[of E g ?c X y X_valid y_valid] by blast
  have l': "length (codes (self ?st)) = length (scores (self ?st))"
    "length (estimators (self ?st)) = length (scores (self ?st))"
    using ap l by simp_all
  have ex: "\<exists>cs es ss. codes (self ?st) = codes ?c @ cs \<and> estimators (self ?st) = estimators ?c @ es
          \<and> scores (self ?st) = scores ?c @ ss"
    using ap by blast
  have best: "\<exists>idx<length (scores (self ?st)).
            argmax (scores (self ?st)) = Inr idx
          \<and> best_score (self ?st) = Some (scores (self ?st) ! idx)
          \<and> best_estimator (self ?st) = Some (estimators (self ?st) ! idx)
          \<and> best_estimator_code (self ?st) = Some (codes (self ?st) ! idx)
          \<and> (NaN \<notin> set (scores (self ?st)) \<longrightarrow>
               (\<forall>j<length (scores (self ?st)).
                  float_le (scores (self ?st) ! j) (scores (self ?st) ! idx)))"
    if h: "raised ?st = None" "scores (self ?st) \<noteq> []"
  proof -
    obtain idx where idx: "argmax (scores (self ?st)) = Inr idx" "idx < length (scores (self ?st))"
      "best_score (self ?st) = Some (scores (self ?st) ! idx)"
      "best_estimator (self ?st) = Some (estimators (self ?st) ! idx)"
      "best_estimator_code (self ?st) = Some (codes (self ?st) ! idx)"
      using fit_best[OF l h] by blast
    have m: "\<forall>j<length (scores (self ?st)). float_le (scores (self ?st) ! j) (scores (self ?st) ! idx)"
      if "NaN \<notin> set (scores (self ?st))"
      using argmax_first_max[OF h(2) that] idx(1) by auto
    show ?thesis
      using idx m by (intro exI[of _ idx]) simp
  qed
  show ?thesis
    unfolding Let_def using l l' ex best by blast
qed

theorem candidate_lists_accumulate_witness:
  "scores (fst (fits demo_env 0 (init 1 matches 3 (Finite 0) 42 False)
                  [([1, 2, 3, 4, 5], [1, 2, 3, 4, 0], None, None)])) = [Finite 3]
 \<and> scores (self (fit demo_env 0
       (fst (fits demo_env 0 (init 1 matches 3 (Finite 0) 42 False)
               [([1, 2, 3, 4, 5], [1, 2, 3, 4, 0], None, None)]))
       [1, 5] [1, 5] None None)) = [Finite 3, Finite 1]
 \<and> best_estimator_code (self (fit demo_env 0
       (fst (fits demo_env 0 (init 1 matches 3 (Finite 0) 42 False)
               [([1, 2, 3, 4, 5], [1, 2, 3, 4, 0], None, None)]))
       [1, 5] [1, 5] None None)) = Some ''aaaa''"
proof -
  let ?c = "fst (fits demo_env 0 (init 1 matches 3 (Finite 0) 42 False)
                   [([1, 2, 3, 4, 5], [1, 2, 3, 4, 0], None, None)])"
  let ?st = "fit demo_env 0 ?c [1, 5] [1, 5] None None"
  have a: "scores ?c = [Finite 3]" by code_simp
  have b: "scores (self ?st) = [Finite 3, Finite 1]" by code_simp
  have k: "codes (self ?st) = [''aaaa'', ''aaaaa'']" by code_simp
  have r: "raised ?st = None" by code_simp
  have m: "argmax [Finite 3, Finite 1] = Inr 0" by code_simp
  have ne: "scores (self ?st) \<noteq> []" unfolding b by simp
  have "\<exists>idx<length (scores (self ?st)).
            argmax (scores (self ?st)) = Inr idx
          \<and> best_score (self ?st) = Some (scores (self ?st) ! idx)
          \<and> best_estimator (self ?st) = Some (estimators (self ?st) ! idx)
          \<and> best_estimator_code (self ?st) = Some (codes (self ?st) ! idx)
          \<and> (NaN \<notin> set (scores (self ?st)) \<longrightarrow>
               (\<forall>j<length (scores (self ?st)).
                  float_le (scores (self ?st) ! j) (scores (self ?st) ! idx)))"
    using candidate_lists_accumulate[of demo_env 0 1 matches 3 "Finite 0" 42 False
        "[([1, 2, 3, 4, 5], [1, 2, 3, 4, 0], None, None)]" 0 "[1, 5]" "[1, 5]" None None] r ne
    unfolding Let_def by blast
  then obtain idx where idx: "argmax (scores (self ?st)) = Inr idx"
    "best_estimator_code (self ?st) = Some (codes (self ?st) ! idx)"
    by blast
  have "idx = 0" using idx(1)[unfolded b m] by simp
  then show ?thesis using a b idx(2)[unfolded k] by simp
qed

end
